theory Spec2Isabelle
  imports Main
begin

section \<open>JavaScript values\<close>

text \<open>
  \<^verbatim>\<open>validateValue(value: any, model: any)\<close> takes arbitrary JavaScript values. A number
  is an IEEE double: not-a-number, an infinity with its sign, or a finite value given by
  sign, significand and binary exponent (so that both zeros exist). Objects, arrays and
  functions are references into the heap, which is part of the world the validators
  act on.
\<close>

datatype js_number = NaN | Infinity bool | Finite bool nat int

datatype js_value =
    JUndefined
  | JNull
  | JBoolean bool
  | JNumber js_number
  | JBigInt int
  | JString string
  | JSymbol nat
  | JObject nat

text \<open>
  ECMAScript's ToBoolean. The source computes \<^verbatim>\<open>isEmpty = !value\<close>, the negation of
  this conversion: \<^verbatim>\<open>undefined\<close>, \<^verbatim>\<open>null\<close>, \<^verbatim>\<open>false\<close>, both zeros, NaN, \<^verbatim>\<open>0n\<close> and
  the empty string are falsy, every other value is truthy.
\<close>

fun to_boolean :: "js_value \<Rightarrow> bool" where
  "to_boolean JUndefined = False"
| "to_boolean JNull = False"
| "to_boolean (JBoolean b) = b"
| "to_boolean (JNumber NaN) = False"
| "to_boolean (JNumber (Infinity negative)) = True"
| "to_boolean (JNumber (Finite negative significand exponent)) = (significand \<noteq> 0)"
| "to_boolean (JBigInt n) = (n \<noteq> 0)"
| "to_boolean (JString s) = (s \<noteq> [])"
| "to_boolean (JSymbol a) = True"
| "to_boolean (JObject a) = True"

section \<open>Validators\<close>

text \<open>
  \<^verbatim>\<open>src/field-options.ts\<close> imports \<^verbatim>\<open>BaseValidator\<close> from \<^verbatim>\<open>./validators/base-validator\<close>
  and uses five members of it. A validator is an object whose methods are arbitrary
  JavaScript: a call may read and change the heap (the model object it is handed, the
  validator's own fields, anything else reachable). The type \<open>'w\<close> is that world; a
  method takes the world and returns its result with the world after the call.
  \<^verbatim>\<open>hasCustomMessage\<close> is a property, read without a call. The result types are the
  ones of the capability set of the specification (section 3): booleans and strings;
  a method returns. In the first embedding of \<^verbatim>\<open>validateValue\<close> below the FieldOptions
  object is kept apart from the world: its two fields are private, and a validator is
  handed the field name, the value and the model, never the object. The section on
  FieldOptions in the store drops that separation and shows that the two embeddings
  agree for validators that leave the object alone.
\<close>

record 'w BaseValidator =
  validatesEmptyValue :: "'w \<Rightarrow> bool \<times> 'w"
  isValid :: "js_value \<Rightarrow> js_value \<Rightarrow> 'w \<Rightarrow> bool \<times> 'w"
  hasCustomMessage :: "'w \<Rightarrow> bool"
  getCustomMessage :: "'w \<Rightarrow> string \<times> 'w"
  getMessage :: "string \<Rightarrow> js_value \<Rightarrow> 'w \<Rightarrow> string \<times> 'w"

section \<open>FieldOptions (src/field-options.ts)\<close>

text \<open>
  The two private fields of the class. The array \<^verbatim>\<open>validators\<close> is a list;
  \<^verbatim>\<open>push\<close> appends at the end.
\<close>

record 'w FieldOptions =
  fieldName :: string
  validators :: "'w BaseValidator list"

text \<open>The field initialisers, lines 4 and 5: what \<^verbatim>\<open>new FieldOptions()\<close> yields.\<close>

definition new_FieldOptions :: "'w FieldOptions" where
  "new_FieldOptions = \<lparr>fieldName = ''Field'', validators = []\<rparr>"

definition getFieldName :: "'w FieldOptions \<Rightarrow> string" where
  "getFieldName this = fieldName this"

definition setFieldName :: "string \<Rightarrow> 'w FieldOptions \<Rightarrow> 'w FieldOptions" where
  "setFieldName name this = this\<lparr>fieldName := name\<rparr>"

definition addValidator :: "'w BaseValidator \<Rightarrow> 'w FieldOptions \<Rightarrow> 'w FieldOptions" where
  "addValidator validator this = this\<lparr>validators := validators this @ [validator]\<rparr>"

definition getValidators :: "'w FieldOptions \<Rightarrow> 'w BaseValidator list" where
  "getValidators this = validators this"

text \<open>
  The body of the \<^verbatim>\<open>for\<close> loop of \<^verbatim>\<open>validateValue\<close>, lines 29 to 40, for the validator
  it has just read: \<^verbatim>\<open>validatesEmptyValue()\<close> is the left operand of \<^verbatim>\<open>&&\<close> and so is
  always called; \<^verbatim>\<open>continue\<close> leaves the body with \<^verbatim>\<open>errors\<close> as it was; \<^verbatim>\<open>isValid\<close> is
  called next, and on \<^verbatim>\<open>false\<close> one of the two message methods, whose result is pushed.
\<close>

definition validateValue_body ::
  "'w BaseValidator \<Rightarrow> string \<Rightarrow> js_value \<Rightarrow> js_value \<Rightarrow> bool \<Rightarrow> string list \<Rightarrow> 'w
    \<Rightarrow> string list \<times> 'w" where
  "validateValue_body validator name value model isEmpty errors w =
     (case validatesEmptyValue validator w of (validatesEmpty, w1) \<Rightarrow>
        if \<not> validatesEmpty \<and> isEmpty then (errors, w1)
        else
          (case isValid validator value model w1 of (valid, w2) \<Rightarrow>
             if \<not> valid then
               (case (if hasCustomMessage validator w2
                      then getCustomMessage validator w2
                      else getMessage validator name value w2) of
                  (message, w3) \<Rightarrow> (errors @ [message], w3))
             else (errors, w2)))"

text \<open>
  The loop itself, line 28: \<^verbatim>\<open>this.validators.length\<close> and \<^verbatim>\<open>this.validators[i]\<close> are
  read from the object at every iteration, \<^verbatim>\<open>i\<close> counts up from the value it is started
  with. The loop returns the errors, the object and the world. The object is a value
  here, which no validator reaches; \<open>validateValue_loop_store\<close> below is the loop on an
  object in the store, and the two agree for validators that leave the object alone.
\<close>

function validateValue_loop ::
  "'w FieldOptions \<Rightarrow> js_value \<Rightarrow> js_value \<Rightarrow> string \<Rightarrow> bool \<Rightarrow> nat \<Rightarrow> string list \<Rightarrow> 'w
    \<Rightarrow> string list \<times> 'w FieldOptions \<times> 'w" where
  "validateValue_loop this value model name isEmpty i errors w =
     (if i < length (validators this) then
        (case validateValue_body (validators this ! i) name value model isEmpty errors w of
           (errors', w') \<Rightarrow> validateValue_loop this value model name isEmpty (i + 1) errors' w')
      else (errors, this, w))"
  by pat_completeness auto
termination
  by (relation "measure (\<lambda>(this, value, model, name, isEmpty, i, errors, w).
        length (validators this) - i)") auto

text \<open>
  \<^verbatim>\<open>validateValue\<close>, lines 23 to 43: the field name and the emptiness of the value are
  read once, before the loop. The local variable \<^verbatim>\<open>fieldName\<close> of the source is \<open>name\<close>
  here and in the loop, the field of the object being \<open>fieldName\<close>.
\<close>

definition validateValue ::
  "'w FieldOptions \<Rightarrow> js_value \<Rightarrow> js_value \<Rightarrow> 'w \<Rightarrow> string list \<times> 'w FieldOptions \<times> 'w" where
  "validateValue this value model w =
     (let errors = [];
          name = fieldName this;
          isEmpty = \<not> to_boolean value
      in validateValue_loop this value model name isEmpty 0 errors w)"

section \<open>The built-in validators the decorators construct\<close>

text \<open>
  The validator classes live in \<^verbatim>\<open>./validators/\<close>, which is not among the sources; the
  decorator \<^verbatim>\<open>MinLength\<close> below constructs one of them, and the integration test states
  the messages of two of them. They follow section 4.1 of the specification.
\<close>

text \<open>
  Modelled from the spec: the rendering of the bound inside the message template
  \<open>{fieldName} must be at least {min} characters long\<close> (the validator class that
  renders it is missing). The bound is a positive integer and is written in decimal.
\<close>

definition digit_char :: "nat \<Rightarrow> char" where
  "digit_char d = ''0123456789'' ! d"

text \<open>
  Modelled from the spec: the decimal numeral of a natural number, most significant digit
  first, for the same message template (the missing validator class renders it).
\<close>

fun show_nat :: "nat \<Rightarrow> string" where
  "show_nat n =
     (if n < 10 then [digit_char n] else show_nat (n div 10) @ [digit_char (n mod 10)])"

declare show_nat.simps [simp del]

text \<open>
  Modelled from the spec: the class \<^verbatim>\<open>RequiredValidator\<close> (missing from the sources).
  Section 4.1: \<open>isValid\<close> is truthiness of the value, \<open>validatesEmptyValue()\<close> is true,
  the default template is \<open>{fieldName} is required\<close>; an optional custom message is
  returned verbatim, and \<open>hasCustomMessage\<close> tells whether there is one. What
  \<open>getCustomMessage()\<close> returns without a custom message is not specified; it is the
  empty string here.
\<close>

definition RequiredValidator :: "string option \<Rightarrow> 'w BaseValidator" where
  "RequiredValidator message =
     \<lparr>validatesEmptyValue = (\<lambda>w. (True, w)),
      isValid = (\<lambda>value model w. (to_boolean value, w)),
      hasCustomMessage = (\<lambda>w. message \<noteq> None),
      getCustomMessage = (\<lambda>w. (case message of Some s \<Rightarrow> s | None \<Rightarrow> [], w)),
      getMessage = (\<lambda>name value w. (name @ '' is required'', w))\<rparr>"

text \<open>
  Modelled from the spec: the object a successful \<^verbatim>\<open>new MinLengthValidator(n, message)\<close>
  yields (the class is missing from the sources). Section 4.1: \<open>isValid\<close> is
  \<open>length \<ge> n\<close>, empty values are skipped by default, the default template is
  \<open>{fieldName} must be at least {min} characters long\<close>. The specification speaks of
  the length of strings only; a value of another type has none and does not pass.
\<close>

definition MinLengthValidator :: "nat \<Rightarrow> string option \<Rightarrow> 'w BaseValidator" where
  "MinLengthValidator minLength message =
     \<lparr>validatesEmptyValue = (\<lambda>w. (False, w)),
      isValid = (\<lambda>value model w.
        (case value of JString s \<Rightarrow> minLength \<le> length s | _ \<Rightarrow> False, w)),
      hasCustomMessage = (\<lambda>w. message \<noteq> None),
      getCustomMessage = (\<lambda>w. (case message of Some s \<Rightarrow> s | None \<Rightarrow> [], w)),
      getMessage = (\<lambda>name value w.
        (name @ '' must be at least '' @ show_nat minLength @ '' characters long'', w))\<rparr>"

text \<open>
  Modelled from the spec: the error the missing constructors raise on an invalid
  parameter, the "configuration error" of section 7.
\<close>

datatype error = ConfigurationError

text \<open>
  Modelled from the spec: the parameter check of the missing constructor of
  \<^verbatim>\<open>MinLengthValidator\<close>, "n must be a positive integer". A double is a positive integer
  when it is finite, not negative, not zero, and has no fractional part.
\<close>

definition is_positive_integer :: "js_number \<Rightarrow> bool" where
  "is_positive_integer n =
     (case n of
        Finite negative significand exponent \<Rightarrow>
          \<not> negative \<and> 0 < significand \<and>
          (0 \<le> exponent \<or> 2 ^ nat (- exponent) dvd significand)
      | _ \<Rightarrow> False)"

text \<open>
  Modelled from the spec: the natural number a positive integer double denotes (the
  bound the missing constructor of \<^verbatim>\<open>MinLengthValidator\<close> stores).
\<close>

definition integer_value :: "js_number \<Rightarrow> nat" where
  "integer_value n =
     (case n of
        Finite negative significand exponent \<Rightarrow>
          if 0 \<le> exponent then significand * 2 ^ nat exponent
          else significand div 2 ^ nat (- exponent)
      | _ \<Rightarrow> 0)"

text \<open>
  Modelled from the spec: the constructor \<^verbatim>\<open>new MinLengthValidator(minLength, message)\<close>
  (missing from the sources). Sections 4.1 and 7: "n must be a positive integer, else
  construction fails with a configuration error".
\<close>

definition new_MinLengthValidator ::
  "js_number \<Rightarrow> string option \<Rightarrow> error + 'w BaseValidator" where
  "new_MinLengthValidator minLength message =
     (if is_positive_integer minLength
      then Inr (MinLengthValidator (integer_value minLength) message)
      else Inl ConfigurationError)"

section \<open>ValidationManager and the registry of managers\<close>

text \<open>
  Modelled from the spec: the state of a \<^verbatim>\<open>ValidationManager\<close> (\<^verbatim>\<open>../validation-manager\<close> is
  missing from the sources). Section 3: a mapping from field name to FieldOptions, keys
  unique, in insertion order.
\<close>

record 'w ValidationManager =
  manager_fields :: "(string \<times> 'w FieldOptions) list"

text \<open>
  Modelled from the spec: a manager as the missing \<^verbatim>\<open>ValidationManager.get\<close> creates it,
  with no field.
\<close>

definition new_ValidationManager :: "'w ValidationManager" where
  "new_ValidationManager = \<lparr>manager_fields = []\<rparr>"

text \<open>
  Modelled from the spec: "looks up or lazily creates the field's FieldOptions", then
  applies an operation to it (section 4.3; the manager's methods are missing). An
  existing entry keeps its place, a new one goes last.
\<close>

fun with_field ::
  "string \<Rightarrow> ('w FieldOptions \<Rightarrow> 'w FieldOptions) \<Rightarrow> (string \<times> 'w FieldOptions) list
    \<Rightarrow> (string \<times> 'w FieldOptions) list" where
  "with_field field f [] = [(field, f new_FieldOptions)]"
| "with_field field f ((k, options) # rest) =
     (if k = field then (k, f options) # rest else (k, options) # with_field field f rest)"

text \<open>
  Modelled from the spec: the missing method \<^verbatim>\<open>ValidationManager.addValidator(field,
  validator)\<close>, which "looks up or lazily creates the field's FieldOptions, then appends
  the validator".
\<close>

definition ValidationManager_addValidator ::
  "string \<Rightarrow> 'w BaseValidator \<Rightarrow> 'w ValidationManager \<Rightarrow> 'w ValidationManager" where
  "ValidationManager_addValidator field validator manager =
     manager\<lparr>manager_fields := with_field field (addValidator validator) (manager_fields manager)\<rparr>"

text \<open>
  Modelled from the spec: the missing method \<^verbatim>\<open>ValidationManager.setFieldName(field,
  name)\<close>, which "likewise lazily creates FieldOptions if needed".
\<close>

definition ValidationManager_setFieldName ::
  "string \<Rightarrow> string \<Rightarrow> 'w ValidationManager \<Rightarrow> 'w ValidationManager" where
  "ValidationManager_setFieldName field name manager =
     manager\<lparr>manager_fields := with_field field (setFieldName name) (manager_fields manager)\<rparr>"

text \<open>
  Modelled from the spec: the process-wide registry behind the missing
  \<^verbatim>\<open>ValidationManager.get\<close>, "keyed by model type identity" (section 4.3). A model type
  and a manager are objects, known by their references (natural numbers): \<open>instances\<close>
  maps a type to the reference of its manager, \<open>managers\<close> is the heap of manager
  objects, \<open>next_ref\<close> the next unused reference.
\<close>

record 'w Registry =
  instances :: "nat \<Rightarrow> nat option"
  managers :: "nat \<Rightarrow> 'w ValidationManager option"
  next_ref :: nat

text \<open>Modelled from the spec: the registry before any registration call (section 9).\<close>

definition empty_Registry :: "'w Registry" where
  "empty_Registry = \<lparr>instances = Map.empty, managers = Map.empty, next_ref = 0\<rparr>"

text \<open>
  Modelled from the spec: the missing static method \<^verbatim>\<open>ValidationManager.get(type)\<close>, which
  "creates-or-returns the singleton instance for that type". It returns the reference
  of the manager and the registry after the call.
\<close>

definition ValidationManager_get :: "nat \<Rightarrow> 'w Registry \<Rightarrow> nat \<times> 'w Registry" where
  "ValidationManager_get modelType r =
     (case instances r modelType of
        Some manager \<Rightarrow> (manager, r)
      | None \<Rightarrow>
          (let manager = next_ref r
           in (manager,
               r\<lparr>instances := (instances r)(modelType \<mapsto> manager),
                 managers := (managers r)(manager \<mapsto> new_ValidationManager),
                 next_ref := Suc manager\<rparr>)))"

text \<open>
  Modelled from the spec: a method call on the manager object a reference denotes (the
  manager class is missing). The call updates that object in the heap; a reference that
  denotes no object, which \<open>ValidationManager_get\<close> never returns, changes nothing.
\<close>

definition on_manager ::
  "nat \<Rightarrow> ('w ValidationManager \<Rightarrow> 'w ValidationManager) \<Rightarrow> 'w Registry \<Rightarrow> 'w Registry" where
  "on_manager manager f r =
     (case managers r manager of
        Some state \<Rightarrow> r\<lparr>managers := (managers r)(manager \<mapsto> f state)\<rparr>
      | None \<Rightarrow> r)"

section \<open>The decorator MinLength\<close>

text \<open>
  The decorator factory of the sources, lines 10 to 15. \<^verbatim>\<open>MinLength(minLength, message)\<close>
  builds nothing: it returns the decorator, the function of \<^verbatim>\<open>targetClass\<close> and
  \<^verbatim>\<open>property\<close>. Applying the decorator (which the runtime does when the class is
  defined) first obtains the manager of the class, line 12, and then evaluates the
  argument \<^verbatim>\<open>new MinLengthValidator(minLength, message)\<close> before the call of
  \<^verbatim>\<open>manager.addValidator\<close>, line 13; an exception of the constructor leaves through the
  decorator, after the manager has been obtained. The optional parameter is an option.
\<close>

definition MinLength ::
  "js_number \<Rightarrow> string option \<Rightarrow> nat \<Rightarrow> string \<Rightarrow> 'w Registry \<Rightarrow> (error + unit) \<times> 'w Registry" where
  "MinLength minLength message targetClass property r =
     (case ValidationManager_get targetClass r of
        (manager, r1) \<Rightarrow>
          (case new_MinLengthValidator minLength message of
             Inl e \<Rightarrow> (Inl e, r1)
           | Inr validator \<Rightarrow>
               (Inr (),
                on_manager manager (ValidationManager_addValidator property validator) r1)))"

section \<open>ModelValidator\<close>

text \<open>
  Modelled from the spec: the missing method \<^verbatim>\<open>ModelValidator.validateField(name)\<close>, section
  4.4: it "resolves FieldOptions for name in the manager (absent: treat as no
  validators, return empty list), reads model[name], delegates to
  FieldOptions.validateValue(value, model)". Reading a member of the model is left to
  the host; it is the parameter \<open>member\<close>.
\<close>

definition validateField ::
  "(js_value \<Rightarrow> string \<Rightarrow> 'w \<Rightarrow> js_value) \<Rightarrow> 'w ValidationManager \<Rightarrow> js_value \<Rightarrow> string \<Rightarrow> 'w
    \<Rightarrow> string list \<times> 'w" where
  "validateField member manager model name w =
     (case map_of (manager_fields manager) name of
        None \<Rightarrow> ([], w)
      | Some options \<Rightarrow>
          (case validateValue options (member model name w) model w of
             (errors, options', w') \<Rightarrow> (errors, w')))"

text \<open>
  Modelled from the spec: the iteration of the missing method \<^verbatim>\<open>ModelValidator.validate()\<close>,
  section 4.4: it "calls validateField on each, and for every field whose error list is
  non-empty appends {field, errors} to the result".
\<close>

fun validate_fields ::
  "(js_value \<Rightarrow> string \<Rightarrow> 'w \<Rightarrow> js_value) \<Rightarrow> 'w ValidationManager \<Rightarrow> js_value \<Rightarrow> string list \<Rightarrow> 'w
    \<Rightarrow> (string \<times> string list) list \<times> 'w" where
  "validate_fields member manager model [] w = ([], w)"
| "validate_fields member manager model (name # names) w =
     (case validateField member manager model name w of
        (errors, w1) \<Rightarrow>
          (case validate_fields member manager model names w1 of
             (rest, w2) \<Rightarrow> ((if errors = [] then [] else [(name, errors)]) @ rest, w2)))"

text \<open>
  Modelled from the spec: the ValidationResult of section 3 (its declaration is missing):
  \<open>isValid\<close> and the errors by field, in field-declaration order.
\<close>

record ValidationResult =
  result_isValid :: bool
  result_errors :: "(string \<times> string list) list"

text \<open>
  Modelled from the spec: the missing method \<^verbatim>\<open>ModelValidator.validate()\<close>, section 4.4: it
  "iterates all registered field names in declaration order"; "isValid = result list is
  empty".
\<close>

definition validate ::
  "(js_value \<Rightarrow> string \<Rightarrow> 'w \<Rightarrow> js_value) \<Rightarrow> 'w ValidationManager \<Rightarrow> js_value \<Rightarrow> 'w
    \<Rightarrow> ValidationResult \<times> 'w" where
  "validate member manager model w =
     (case validate_fields member manager model (map fst (manager_fields manager)) w of
        (errors, w') \<Rightarrow> (\<lparr>result_isValid = (errors = []), result_errors = errors\<rparr>, w'))"

section \<open>What happens to one validator\<close>

text \<open>
  The outcome of one validator in the chain, after section 4.2 (steps 3 and 4) of the
  specification: it is skipped (the value is empty and the validator does not validate
  empty values), it passes, or it fails with its resolved message. The methods are
  called in the order the source calls them, each in the world the previous call left.
\<close>

datatype verdict = Skipped | Passed | Failed string

definition verdict ::
  "'w BaseValidator \<Rightarrow> string \<Rightarrow> js_value \<Rightarrow> js_value \<Rightarrow> 'w \<Rightarrow> verdict \<times> 'w" where
  "verdict v name value model w =
     (let (validatesEmpty, w1) = validatesEmptyValue v w in
      if \<not> to_boolean value \<and> \<not> validatesEmpty then (Skipped, w1)
      else
        let (valid, w2) = isValid v value model w1 in
        if valid then (Passed, w2)
        else
          let (message, w3) =
            (if hasCustomMessage v w2 then getCustomMessage v w2 else getMessage v name value w2)
          in (Failed message, w3))"

text \<open>The verdicts of a chain, first validator first, the world threaded through.\<close>

fun verdicts ::
  "'w BaseValidator list \<Rightarrow> string \<Rightarrow> js_value \<Rightarrow> js_value \<Rightarrow> 'w \<Rightarrow> verdict list \<times> 'w" where
  "verdicts [] name value model w = ([], w)"
| "verdicts (v # vs) name value model w =
     (case verdict v name value model w of (d, w1) \<Rightarrow>
        (case verdicts vs name value model w1 of (ds, w2) \<Rightarrow> (d # ds, w2)))"

text \<open>What a verdict reports: its message when it is a failure, nothing otherwise.\<close>

fun reported :: "verdict \<Rightarrow> string list" where
  "reported Skipped = []"
| "reported Passed = []"
| "reported (Failed message) = [message]"

text \<open>
  The invariant the specification puts on validators (section 3): no method changes
  the world. A method may still read it (a cross-field predicate reads the model).
\<close>

definition side_effect_free :: "'w BaseValidator \<Rightarrow> bool" where
  "side_effect_free v \<longleftrightarrow>
     (\<forall>w. snd (validatesEmptyValue v w) = w) \<and>
     (\<forall>value model w. snd (isValid v value model w) = w) \<and>
     (\<forall>w. snd (getCustomMessage v w) = w) \<and>
     (\<forall>name value w. snd (getMessage v name value w) = w)"

text \<open>
  The same for one observation of the world: no method changes what \<open>observe\<close> sees
  (the contents of the model object, say), whatever else it changes.
\<close>

definition preserves :: "('w \<Rightarrow> 'a) \<Rightarrow> 'w BaseValidator \<Rightarrow> bool" where
  "preserves observe v \<longleftrightarrow>
     (\<forall>w. observe (snd (validatesEmptyValue v w)) = observe w) \<and>
     (\<forall>value model w. observe (snd (isValid v value model w)) = observe w) \<and>
     (\<forall>w. observe (snd (getCustomMessage v w)) = observe w) \<and>
     (\<forall>name value w. observe (snd (getMessage v name value w)) = observe w)"

text \<open>
  For a validator without side effects, in world \<open>w\<close>: whether it is evaluated and
  fails, and the message it then resolves to.
\<close>

definition fails :: "'w BaseValidator \<Rightarrow> js_value \<Rightarrow> js_value \<Rightarrow> 'w \<Rightarrow> bool" where
  "fails v value model w \<longleftrightarrow>
     (to_boolean value \<or> fst (validatesEmptyValue v w)) \<and> \<not> fst (isValid v value model w)"

definition resolved_message :: "'w BaseValidator \<Rightarrow> string \<Rightarrow> js_value \<Rightarrow> 'w \<Rightarrow> string" where
  "resolved_message v name value w =
     (if hasCustomMessage v w then fst (getCustomMessage v w)
      else fst (getMessage v name value w))"

section \<open>Predicates on registries and bounds\<close>

text \<open>
  A bound that is zero or negative: a zero of either sign, a negative finite number or
  negative infinity. NaN is neither.
\<close>

definition non_positive :: "js_number \<Rightarrow> bool" where
  "non_positive n =
     (case n of
        NaN \<Rightarrow> False
      | Infinity negative \<Rightarrow> negative
      | Finite negative significand exponent \<Rightarrow> negative \<or> significand = 0)"

text \<open>
  The registries that calls of \<open>ValidationManager_get\<close> on the empty registry produce:
  every registered type has an allocated manager below \<open>next_ref\<close>, and no two types
  share one.
\<close>

definition well_formed :: "'w Registry \<Rightarrow> bool" where
  "well_formed r \<longleftrightarrow>
     (\<forall>t a. instances r t = Some a \<longrightarrow> a < next_ref r \<and> managers r a \<noteq> None) \<and>
     (\<forall>t t' a. instances r t = Some a \<and> instances r t' = Some a \<longrightarrow> t = t')"

section \<open>Call sequences and an effectful validator\<close>

text \<open>
  The two mutating methods of FieldOptions as calls, so that a sequence of registration
  calls is a list.
\<close>

datatype 'w call = SetFieldName string | AddValidator "'w BaseValidator"

fun perform :: "'w call \<Rightarrow> 'w FieldOptions \<Rightarrow> 'w FieldOptions" where
  "perform (SetFieldName name) this = setFieldName name this"
| "perform (AddValidator v) this = addValidator v this"

text \<open>
  A validator with a side effect, as an input for the statements about arbitrary
  validators: the world is a pair of a call counter and a model content, and every
  \<open>isValid\<close> call counts itself and fails. It does not validate empty values and has no
  custom message.
\<close>

definition CountingValidator :: "(nat \<times> nat) BaseValidator" where
  "CountingValidator =
     \<lparr>validatesEmptyValue = (\<lambda>w. (False, w)),
      isValid = (\<lambda>value model w. (False, (Suc (fst w), snd w))),
      hasCustomMessage = (\<lambda>w. False),
      getCustomMessage = (\<lambda>w. ([], w)),
      getMessage = (\<lambda>name value w. (name @ '' was checked'', w))\<rparr>"

section \<open>Sequences of registration calls\<close>

text \<open>
  The calls that reach the registry while classes are defined, so that a sequence of them
  is a list: a \<open>get\<close> for a model type, and the application of a \<^verbatim>\<open>MinLength\<close> decorator
  to a property of a class. \<open>register\<close> is the registry after the call.
\<close>

datatype registration = GetManager nat | ApplyMinLength js_number "string option" nat string

fun register :: "registration \<Rightarrow> 'w Registry \<Rightarrow> 'w Registry" where
  "register (GetManager modelType) r = snd (ValidationManager_get modelType r)"
| "register (ApplyMinLength minLength message targetClass property) r =
     snd (MinLength minLength message targetClass property r)"

fun registration_class :: "registration \<Rightarrow> nat" where
  "registration_class (GetManager modelType) = modelType"
| "registration_class (ApplyMinLength minLength message targetClass property) = targetClass"

section \<open>FieldOptions in the store\<close>

text \<open>
  A validator is an object like any other: it may hold a reference to the FieldOptions
  object that holds it and call \<^verbatim>\<open>setFieldName\<close> or \<^verbatim>\<open>addValidator\<close> on it, or push to the
  array \<^verbatim>\<open>getValidators()\<close> returns, while \<^verbatim>\<open>validateValue\<close> runs. For the statements that
  depend on this aliasing the object lives in the store the validators act on: the store
  holds the two fields of \<^verbatim>\<open>this\<close>, the array as a list of references to validator
  objects, and the rest of the heap (the contents of the model and of the value among
  it). The methods of a validator object are those of its class and do not change;
  \<open>object\<close> gives them for a reference.
\<close>

record 'w store =
  this_fieldName :: string
  this_validators :: "nat list"
  rest :: 'w

text \<open>
  The loop of \<^verbatim>\<open>validateValue\<close>, line 28, on the store: \<^verbatim>\<open>this.validators.length\<close> and
  \<^verbatim>\<open>this.validators[i]\<close> are read from the store at every iteration, after whatever the
  validators called so far have done to it. A validator that keeps pushing validators
  keeps the loop running, so the loop is a partial function: \<open>None\<close> is the run that
  never returns. The body is \<open>validateValue_body\<close>, with the store as the world.
\<close>

partial_function (option) validateValue_loop_store ::
  "(nat \<Rightarrow> 'w store BaseValidator) \<Rightarrow> js_value \<Rightarrow> js_value \<Rightarrow> string \<Rightarrow> bool \<Rightarrow> nat \<Rightarrow> string list
    \<Rightarrow> 'w store \<Rightarrow> (string list \<times> 'w store) option" where
  "validateValue_loop_store object value model name isEmpty i errors s =
     (if i < length (this_validators s) then
        (case validateValue_body (object (this_validators s ! i)) name value model isEmpty errors s of
           (errors', s') \<Rightarrow>
             validateValue_loop_store object value model name isEmpty (i + 1) errors' s')
      else Some (errors, s))"

text \<open>
  \<^verbatim>\<open>validateValue\<close>, lines 23 to 43, on the store: the name is read once, before the
  loop, as in the source.
\<close>

definition validateValue_store ::
  "(nat \<Rightarrow> 'w store BaseValidator) \<Rightarrow> js_value \<Rightarrow> js_value \<Rightarrow> 'w store
    \<Rightarrow> (string list \<times> 'w store) option" where
  "validateValue_store object value model s =
     (let errors = [];
          name = this_fieldName s;
          isEmpty = \<not> to_boolean value
      in validateValue_loop_store object value model name isEmpty 0 errors s)"

text \<open>The FieldOptions value a store holds: its name, and the validators its chain refers to.\<close>

definition this_of :: "(nat \<Rightarrow> 'w store BaseValidator) \<Rightarrow> 'w store \<Rightarrow> 'w store FieldOptions" where
  "this_of object s = \<lparr>fieldName = this_fieldName s, validators = map object (this_validators s)\<rparr>"

text \<open>
  A validator that reaches the FieldOptions object that holds it: its \<open>isValid\<close> renames
  the field, pushes the validator object 1 to the chain and writes to the model (the
  rest of the store is a counter), and fails.
\<close>

definition MeddlingValidator :: "nat store BaseValidator" where
  "MeddlingValidator =
     \<lparr>validatesEmptyValue = (\<lambda>s. (False, s)),
      isValid = (\<lambda>value model s.
        (False, s\<lparr>this_fieldName := ''Changed'',
                   this_validators := this_validators s @ [1],
                   rest := Suc (rest s)\<rparr>)),
      hasCustomMessage = (\<lambda>s. False),
      getCustomMessage = (\<lambda>s. ([], s)),
      getMessage = (\<lambda>name value s. (name @ '' was checked'', s))\<rparr>"

text \<open>The validator objects of that example: 0 is the meddling one, the others require ten characters.\<close>

definition meddling_objects :: "nat \<Rightarrow> nat store BaseValidator" where
  "meddling_objects a = (if a = 0 then MeddlingValidator else MinLengthValidator 10 None)"

text \<open>
  A validator that writes to the model (the counter) and leaves the FieldOptions object
  alone.
\<close>

definition CountingStoreValidator :: "nat store BaseValidator" where
  "CountingStoreValidator =
     \<lparr>validatesEmptyValue = (\<lambda>s. (False, s)),
      isValid = (\<lambda>value model s. (False, s\<lparr>rest := Suc (rest s)\<rparr>)),
      hasCustomMessage = (\<lambda>s. False),
      getCustomMessage = (\<lambda>s. ([], s)),
      getMessage = (\<lambda>name value s. (name @ '' was checked'', s))\<rparr>"

declare validateValue_loop.simps [simp del]

section \<open>The loop and the verdicts\<close>

lemma validateValue_body_verdict:
  "validateValue_body v name value model (\<not> to_boolean value) errors w =
     (errors @ reported (fst (verdict v name value model w)), snd (verdict v name value model w))"
  by (auto simp: validateValue_body_def verdict_def split: prod.splits)

lemma validateValue_loop_verdicts:
  assumes "isEmpty = (\<not> to_boolean val)"
  shows "validateValue_loop this val model name isEmpty i errors w =
     (errors @ concat (map reported (fst (verdicts (drop i (validators this)) name val model w))),
      this,
      snd (verdicts (drop i (validators this)) name val model w))"
  using assms
proof (induction this val model name isEmpty i errors w rule: validateValue_loop.induct)
  case (1 this val model name isEmpty i errors w)
  show ?case
  proof (cases "i < length (validators this)")
    case False
    then show ?thesis
      by (simp add: validateValue_loop.simps [of this val model name isEmpty i])
  next
    case True
    then have d: "drop i (validators this) = validators this ! i # drop (Suc i) (validators this)"
      by (simp add: Cons_nth_drop_Suc)
    obtain errors' w' where b:
      "validateValue_body (validators this ! i) name val model isEmpty errors w = (errors', w')"
      by (cases "validateValue_body (validators this ! i) name val model isEmpty errors w")
    from b "1.prems" have e: "errors' = errors @ reported (fst (verdict (validators this ! i) name val model w))"
      and w': "w' = snd (verdict (validators this ! i) name val model w)"
      by (simp_all add: validateValue_body_verdict)
    have ih: "validateValue_loop this val model name isEmpty (i + 1) errors' w' =
       (errors' @ concat (map reported (fst (verdicts (drop (i + 1) (validators this)) name val model w'))),
        this,
        snd (verdicts (drop (i + 1) (validators this)) name val model w'))"
      using "1.IH" [OF True b [symmetric] "1.prems"] .
    show ?thesis
      using True b ih
      by (simp add: validateValue_loop.simps [of this val model name isEmpty i] d e w'
          split: prod.splits)
  qed
qed

lemma validateValue_verdicts:
  "validateValue this value model w =
     (concat (map reported (fst (verdicts (validators this) (fieldName this) value model w))),
      this,
      snd (verdicts (validators this) (fieldName this) value model w))"
  by (simp add: validateValue_def Let_def validateValue_loop_verdicts)

lemma length_verdicts:
  "length (fst (verdicts vs name value model w)) = length vs"
  by (induction vs arbitrary: w) (simp_all add: case_prod_beta)

lemma verdicts_append:
  "verdicts (us @ vs) name value model w =
     (fst (verdicts us name value model w) @
        fst (verdicts vs name value model (snd (verdicts us name value model w))),
      snd (verdicts vs name value model (snd (verdicts us name value model w))))"
  by (induction us arbitrary: w) (simp_all add: case_prod_beta)

lemma verdict_side_effect_free:
  assumes "side_effect_free v"
  shows "verdict v name value model w =
     (if fails v value model w then Failed (resolved_message v name value w)
      else if to_boolean value \<or> fst (validatesEmptyValue v w) then Passed else Skipped, w)"
proof -
  obtain a w1 where a: "validatesEmptyValue v w = (a, w1)" by (cases "validatesEmptyValue v w")
  with assms have w1: "w1 = w" by (auto simp: side_effect_free_def dest: spec [of _ w])
  obtain b w2 where b: "isValid v value model w = (b, w2)" by (cases "isValid v value model w")
  with assms have w2: "w2 = w" by (metis side_effect_free_def snd_conv)
  obtain c w3 where c: "getCustomMessage v w = (c, w3)" by (cases "getCustomMessage v w")
  with assms have w3: "w3 = w" by (metis side_effect_free_def snd_conv)
  obtain d w4 where d: "getMessage v name value w = (d, w4)" by (cases "getMessage v name value w")
  with assms have w4: "w4 = w" by (metis side_effect_free_def snd_conv)
  show ?thesis
    using a b c d
    by (auto simp: verdict_def fails_def resolved_message_def w1 w2 w3 w4)
qed

lemma verdicts_side_effect_free:
  assumes "\<forall>v \<in> set vs. side_effect_free v"
  shows "snd (verdicts vs name value model w) = w"
    and "concat (map reported (fst (verdicts vs name value model w))) =
      map (\<lambda>v. resolved_message v name value w) (filter (\<lambda>v. fails v value model w) vs)"
  using assms
  by (induction vs) (simp_all add: verdict_side_effect_free case_prod_beta)

lemma verdict_skipped:
  assumes "\<not> to_boolean value" and "validatesEmptyValue v w = (False, w')"
  shows "verdict v name value model w = (Skipped, w')"
  using assms by (simp add: verdict_def)

lemma verdict_failed:
  assumes "validatesEmptyValue v w = (validatesEmpty, w1)"
    and "to_boolean value \<or> validatesEmpty"
    and "isValid v value model w1 = (False, w2)"
  shows "verdict v name value model w =
    (Failed (fst (if hasCustomMessage v w2 then getCustomMessage v w2 else getMessage v name value w2)),
     snd (if hasCustomMessage v w2 then getCustomMessage v w2 else getMessage v name value w2))"
  using assms by (auto simp: verdict_def case_prod_beta)

lemma validateValue_insert:
  assumes "validateValue (this\<lparr>validators := pre\<rparr>) value model w = (errors1, this1, w1)"
    and "verdict v (fieldName this) value model w1 = (d, w2)"
    and "validateValue (this\<lparr>validators := post\<rparr>) value model w2 = (errors2, this2, w3)"
  shows "validateValue (this\<lparr>validators := pre @ v # post\<rparr>) value model w =
    (errors1 @ reported d @ errors2, this\<lparr>validators := pre @ v # post\<rparr>, w3)"
  using assms by (simp add: validateValue_verdicts verdicts_append case_prod_beta)

lemma verdict_custom_any_name:
  assumes "\<forall>w. hasCustomMessage v w"
  shows "verdict v name value model w = verdict v name' value model w"
  using assms by (simp add: verdict_def case_prod_beta Let_def)

lemma verdicts_custom_any_name:
  assumes "\<forall>v \<in> set vs. \<forall>w. hasCustomMessage v w"
  shows "verdicts vs name value model w = verdicts vs name' value model w"
  using assms
proof (induction vs arbitrary: w)
  case Nil
  show ?case by simp
next
  case (Cons v vs)
  then have "verdict v name value model w = verdict v name' value model w"
    by (simp add: verdict_custom_any_name)
  with Cons show ?case by simp
qed

lemma validateValue_same_verdict:
  assumes "verdict v' (fieldName this) value model
      (snd (snd (validateValue (this\<lparr>validators := pre\<rparr>) value model w))) =
    verdict v (fieldName this) value model
      (snd (snd (validateValue (this\<lparr>validators := pre\<rparr>) value model w)))"
  shows "fst (validateValue (this\<lparr>validators := pre @ v' # post\<rparr>) value model w) =
      fst (validateValue (this\<lparr>validators := pre @ v # post\<rparr>) value model w)
    \<and> snd (snd (validateValue (this\<lparr>validators := pre @ v' # post\<rparr>) value model w)) =
      snd (snd (validateValue (this\<lparr>validators := pre @ v # post\<rparr>) value model w))"
  using assms by (simp add: validateValue_verdicts verdicts_append case_prod_beta)

lemma fieldName_fold_perform_AddValidator:
  "fieldName (fold perform (map AddValidator vs) this) = fieldName this"
  by (induction vs arbitrary: this) (simp_all add: addValidator_def)

lemma validators_fold_perform_AddValidator:
  "validators (fold perform (map AddValidator vs) this) = validators this @ vs"
  by (induction vs arbitrary: this) (simp_all add: addValidator_def)

section \<open>Lemmas on the built-in validators\<close>

lemma side_effect_free_RequiredValidator: "side_effect_free (RequiredValidator message)"
  by (simp add: side_effect_free_def RequiredValidator_def)

lemma side_effect_free_MinLengthValidator: "side_effect_free (MinLengthValidator n message)"
  by (simp add: side_effect_free_def MinLengthValidator_def)

lemma show_nat_digit: "n < 10 \<Longrightarrow> show_nat n = [digit_char n]"
  by (simp add: show_nat.simps)

lemma show_nat_10: "show_nat 10 = ''10''"
  by (simp add: show_nat.simps [of 10] show_nat_digit digit_char_def)

section \<open>Lemmas on the registry and the model validator\<close>

lemma non_positive_not_positive_integer: "non_positive n \<Longrightarrow> \<not> is_positive_integer n"
  by (auto simp: non_positive_def is_positive_integer_def split: js_number.splits)

lemma ValidationManager_get_again:
  "ValidationManager_get t r = (a, r1) \<Longrightarrow> ValidationManager_get t r1 = (a, r1)"
  by (auto simp: ValidationManager_get_def Let_def split: option.splits)

lemma ValidationManager_get_instances:
  "ValidationManager_get t r = (a, r1) \<Longrightarrow> instances r1 t = Some a"
  by (auto simp: ValidationManager_get_def Let_def split: option.splits)

lemma well_formed_get:
  assumes "well_formed r" and "ValidationManager_get t r = (a, r1)"
  shows "well_formed r1"
proof (cases "instances r t")
  case (Some b)
  with assms show ?thesis by (simp add: ValidationManager_get_def)
next
  case None
  with assms(2) have r1: "r1 = r\<lparr>instances := (instances r)(t \<mapsto> next_ref r),
      managers := (managers r)(next_ref r \<mapsto> new_ValidationManager),
      next_ref := Suc (next_ref r)\<rparr>"
    by (auto simp: ValidationManager_get_def Let_def)
  from assms(1) have lt: "\<And>u b. instances r u = Some b \<Longrightarrow> b < next_ref r \<and> managers r b \<noteq> None"
    and inj: "\<And>u u' b. instances r u = Some b \<Longrightarrow> instances r u' = Some b \<Longrightarrow> u = u'"
    by (auto simp: well_formed_def)
  show ?thesis
    unfolding well_formed_def r1
    using lt inj by (auto split: if_splits simp: less_Suc_eq) 
qed

lemma get_allocated:
  assumes "well_formed r" and "ValidationManager_get t r = (a, r1)"
  shows "\<exists>state. managers r1 a = Some state"
  using well_formed_get [OF assms] ValidationManager_get_instances [OF assms(2)]
  by (auto simp: well_formed_def)

lemma well_formed_on_manager: "well_formed r \<Longrightarrow> well_formed (on_manager a f r)"
  by (auto simp: well_formed_def on_manager_def split: option.splits)

lemma well_formed_empty: "well_formed empty_Registry"
  by (simp add: well_formed_def empty_Registry_def)

lemma map_of_with_field:
  "map_of (with_field field f xs) field =
     Some (f (case map_of xs field of None \<Rightarrow> new_FieldOptions | Some options \<Rightarrow> options))"
  by (induction xs) auto

lemma MinLength_valid:
  assumes "is_positive_integer minLength"
    and "ValidationManager_get c r = (a, r1)"
    and "managers r1 a = Some state"
  shows "MinLength minLength message c property r =
    (Inr (), r1\<lparr>managers := (managers r1)(a \<mapsto>
        ValidationManager_addValidator property
          (MinLengthValidator (integer_value minLength) message) state)\<rparr>)"
  using assms by (simp add: MinLength_def new_MinLengthValidator_def on_manager_def)

lemma validateField_side_effect_free:
  assumes "\<forall>p \<in> set (manager_fields manager). \<forall>v \<in> set (validators (snd p)). side_effect_free v"
  shows "snd (validateField member manager model name w) = w"
proof (cases "map_of (manager_fields manager) name")
  case None
  then show ?thesis by (simp add: validateField_def)
next
  case (Some options)
  then have "(name, options) \<in> set (manager_fields manager)" by (rule map_of_SomeD)
  with assms have "\<forall>v \<in> set (validators options). side_effect_free v" by fastforce
  then show ?thesis
    using Some by (simp add: validateField_def validateValue_verdicts verdicts_side_effect_free(1))
qed

lemma validate_fields_side_effect_free:
  assumes "\<forall>p \<in> set (manager_fields manager). \<forall>v \<in> set (validators (snd p)). side_effect_free v"
  shows "snd (validate_fields member manager model names w) = w"
  by (induction names arbitrary: w)
    (simp_all add: case_prod_beta validateField_side_effect_free [OF assms])

lemma validate_side_effect_free:
  assumes "\<forall>p \<in> set (manager_fields manager). \<forall>v \<in> set (validators (snd p)). side_effect_free v"
  shows "snd (validate member manager model w) = w"
  by (simp add: validate_def case_prod_beta validate_fields_side_effect_free [OF assms])

lemma ValidationManager_get_known:
  "instances r c = Some a \<Longrightarrow> ValidationManager_get c r = (a, r)"
  by (simp add: ValidationManager_get_def)

lemma instances_get_keeps:
  "instances r c = Some a \<Longrightarrow> instances (snd (ValidationManager_get t r)) c = Some a"
  by (auto simp: ValidationManager_get_def Let_def split: option.splits)

lemma instances_on_manager: "instances (on_manager b f r) = instances r"
  by (simp add: on_manager_def split: option.splits)

lemma instances_MinLength:
  "instances (snd (MinLength minLength message t property r)) =
     instances (snd (ValidationManager_get t r))"
  by (simp add: MinLength_def case_prod_beta instances_on_manager split: sum.splits)

lemma instances_register_keeps:
  "instances r c = Some a \<Longrightarrow> instances (register op r) c = Some a"
  by (cases op) (simp_all add: instances_get_keeps instances_MinLength)

lemma well_formed_register: "well_formed r \<Longrightarrow> well_formed (register op r)"
proof (cases op)
  case (GetManager t)
  assume "well_formed r"
  then show ?thesis
    using well_formed_get [of r t "fst (ValidationManager_get t r)" "snd (ValidationManager_get t r)"]
    by (simp add: GetManager)
next
  case (ApplyMinLength n m t p)
  assume "well_formed r"
  then have "well_formed (snd (ValidationManager_get t r))"
    using well_formed_get [of r t "fst (ValidationManager_get t r)" "snd (ValidationManager_get t r)"]
    by simp
  then show ?thesis
    by (simp add: ApplyMinLength MinLength_def case_prod_beta well_formed_on_manager
        split: sum.splits)
qed

lemma managers_get_keeps:
  assumes "well_formed r" and "instances r c = Some a"
  shows "managers (snd (ValidationManager_get t r)) a = managers r a"
proof -
  from assms have "a < next_ref r" by (auto simp: well_formed_def)
  then show ?thesis
    by (auto simp: ValidationManager_get_def Let_def split: option.splits)
qed

lemma managers_register_other:
  assumes "well_formed r" and "instances r c = Some a" and "registration_class op \<noteq> c"
  shows "managers (register op r) a = managers r a"
proof (cases op)
  case (GetManager t)
  then show ?thesis using assms by (simp add: managers_get_keeps)
next
  case (ApplyMinLength n m t p)
  let ?b = "fst (ValidationManager_get t r)" and ?r1 = "snd (ValidationManager_get t r)"
  have g: "ValidationManager_get t r = (?b, ?r1)" by simp
  have wf1: "well_formed ?r1" using assms(1) g by (rule well_formed_get)
  have ib: "instances ?r1 t = Some ?b" using g by (rule ValidationManager_get_instances)
  have ia: "instances ?r1 c = Some a" using assms(2) by (rule instances_get_keeps)
  from assms(3) ApplyMinLength have "t \<noteq> c" by simp
  with wf1 ib ia have ne: "?b \<noteq> a" by (auto simp: well_formed_def)
  have "managers (on_manager ?b f ?r1) a = managers ?r1 a" for f
    using ne by (simp add: on_manager_def split: option.splits)
  then show ?thesis
    using assms(1,2)
    by (simp add: ApplyMinLength MinLength_def case_prod_beta managers_get_keeps
        split: sum.splits)
qed

lemma fold_register_keeps:
  assumes "well_formed r" and "instances r c = Some a"
  shows "well_formed (fold register ops r) \<and> instances (fold register ops r) c = Some a"
  using assms
  by (induction ops arbitrary: r) (simp_all add: well_formed_register instances_register_keeps)

lemma fold_register_other:
  assumes "well_formed r" and "instances r c = Some a"
    and "\<forall>op \<in> set ops. registration_class op \<noteq> c"
  shows "managers (fold register ops r) a = managers r a"
  using assms
  by (induction ops arbitrary: r)
    (simp_all add: well_formed_register instances_register_keeps managers_register_other)

section \<open>Lemmas on the store\<close>

lemma validateValue_body_preserves:
  assumes "preserves observe v"
  shows "observe (snd (validateValue_body v name value model isEmpty errors s)) = observe s"
proof -
  from assms have a: "\<And>w. observe (snd (validatesEmptyValue v w)) = observe w"
    and b: "\<And>x m w. observe (snd (isValid v x m w)) = observe w"
    and c: "\<And>w. observe (snd (getCustomMessage v w)) = observe w"
    and d: "\<And>n x w. observe (snd (getMessage v n x w)) = observe w"
    by (simp_all add: preserves_def)
  show ?thesis
    by (simp add: validateValue_body_def case_prod_beta a b c d)
qed

lemma side_effect_free_preserves: "side_effect_free v \<Longrightarrow> preserves observe v"
  by (simp add: side_effect_free_def preserves_def)

lemma validateValue_loop_store_preserves:
  assumes run: "validateValue_loop_store object val model name isEmpty i errors s = Some y"
    and p: "\<forall>a. preserves observe (object a)"
  shows "observe (snd y) = observe s"
  using p
proof (induction rule: validateValue_loop_store.raw_induct [OF _ run])
  case (1 loop object val model name isEmpty i errors s y)
  show ?case
  proof (cases "i < length (this_validators s)")
    case False
    with "1.hyps" show ?thesis by auto
  next
    case True
    let ?b = "validateValue_body (object (this_validators s ! i)) name val model isEmpty errors s"
    from True "1.hyps" have "loop object val model name isEmpty (i + 1) (fst ?b) (snd ?b) = Some y"
      by (simp add: case_prod_beta)
    then have "observe (snd y) = observe (snd ?b)"
      using "1.prems" by (rule "1.IH")
    also have "\<dots> = observe s"
      using "1.prems" by (simp add: validateValue_body_preserves)
    finally show ?thesis .
  qed
qed

lemma validators_this_of: "validators (this_of object s) = map object (this_validators s)"
  by (simp add: this_of_def)

lemma validateValue_loop_store_refines:
  assumes "\<forall>a \<in> set (this_validators s).
      preserves (\<lambda>s. (this_fieldName s, this_validators s)) (object a)"
  shows "validateValue_loop_store object val model name isEmpty i errors s =
     Some (fst (validateValue_loop (this_of object s) val model name isEmpty i errors s),
           snd (snd (validateValue_loop (this_of object s) val model name isEmpty i errors s)))
   \<and> this_of object
        (snd (snd (validateValue_loop (this_of object s) val model name isEmpty i errors s))) =
      this_of object s
   \<and> this_fieldName
        (snd (snd (validateValue_loop (this_of object s) val model name isEmpty i errors s))) =
      this_fieldName s
   \<and> this_validators
        (snd (snd (validateValue_loop (this_of object s) val model name isEmpty i errors s))) =
      this_validators s"
  using assms
proof (induction "length (this_validators s) - i" arbitrary: i errors s)
  case 0
  then have "\<not> i < length (this_validators s)" by simp
  then show ?case
    by (simp add: validateValue_loop_store.simps [of object val model name isEmpty i]
        validateValue_loop.simps [of "this_of object s" val model name isEmpty i]
        validators_this_of)
next
  case (Suc n)
  then have lt: "i < length (this_validators s)" by simp
  let ?v = "object (this_validators s ! i)"
  let ?b = "validateValue_body ?v name val model isEmpty errors s"
  have pv: "preserves (\<lambda>s. (this_fieldName s, this_validators s)) ?v"
    using Suc.prems lt by simp
  have same: "(this_fieldName (snd ?b), this_validators (snd ?b)) =
      (this_fieldName s, this_validators s)"
    using pv by (rule validateValue_body_preserves)
  then have fo: "this_of object (snd ?b) = this_of object s"
    by (simp add: this_of_def)
  have n: "n = length (this_validators (snd ?b)) - (i + 1)"
    using Suc.hyps(2) same by simp
  have p': "\<forall>a \<in> set (this_validators (snd ?b)).
      preserves (\<lambda>s. (this_fieldName s, this_validators s)) (object a)"
    using Suc.prems same by simp
  note ih = Suc.hyps(1) [OF n p', of "fst ?b", unfolded fo]
  have nth: "validators (this_of object s) ! i = ?v"
    using lt by (simp add: validators_this_of)
  have l1: "validateValue_loop (this_of object s) val model name isEmpty i errors s =
      validateValue_loop (this_of object s) val model name isEmpty (i + 1) (fst ?b) (snd ?b)"
    using lt
    by (simp add: validateValue_loop.simps [of "this_of object s" val model name isEmpty i]
        nth case_prod_beta validators_this_of)
  have l2: "validateValue_loop_store object val model name isEmpty i errors s =
      validateValue_loop_store object val model name isEmpty (i + 1) (fst ?b) (snd ?b)"
    using lt
    by (simp add: validateValue_loop_store.simps [of object val model name isEmpty i]
        case_prod_beta)
  show ?case
    using ih same by (simp add: l1 l2)
qed

section \<open>Lemmas on registration\<close>

lemma validators_fold_addValidator:
  "validators (fold addValidator vs this) = validators this @ vs"
  by (induction vs arbitrary: this) (simp_all add: addValidator_def)

lemma fieldName_fold_addValidator:
  "fieldName (fold addValidator vs this) = fieldName this"
  by (induction vs arbitrary: this) (simp_all add: addValidator_def)

lemma manager_fields_addValidator:
  "map_of (manager_fields (ValidationManager_addValidator property v state)) property =
     Some (addValidator v
       (case map_of (manager_fields state) property of
          None \<Rightarrow> new_FieldOptions | Some old \<Rightarrow> old))"
  by (simp add: ValidationManager_addValidator_def map_of_with_field)

section \<open>The claims\<close>

subsection \<open>C1: one message per failing validator, in registration order\<close>

text \<open>
  C1. For every field value, model and validator chain, \<^verbatim>\<open>validateValue\<close> returns exactly
  one message per validator that is evaluated and fails, in registration order, with no
  deduplication and no reordering; a validator that passes contributes nothing, and
  evaluation does not stop at the first failure. For arbitrary (effectful) validators:
  the errors are what the verdicts of the chain report, and there is one verdict per
  validator. For validators without side effects: the errors are the resolved messages
  of the failing validators of the chain, a \<open>map\<close> over a \<open>filter\<close> of the chain, and
  the object and the world are as before.
\<close>

theorem validateValue_one_message_per_failure:
  "fst (validateValue this value model w) =
     concat (map reported (fst (verdicts (validators this) (fieldName this) value model w)))
   \<and> length (fst (verdicts (validators this) (fieldName this) value model w)) =
       length (validators this)
   \<and> ((\<forall>v \<in> set (validators this). side_effect_free v) \<longrightarrow>
        validateValue this value model w =
          (map (\<lambda>v. resolved_message v (fieldName this) value w)
             (filter (\<lambda>v. fails v value model w) (validators this)),
           this, w))"
  by (simp add: validateValue_verdicts length_verdicts verdicts_side_effect_free)

text \<open>
  The same validator twice in a chain reports twice, a passing validator in between
  contributes nothing, and the validators after a failure are still evaluated.
\<close>

theorem validateValue_one_message_per_failure_witness:
  "validateValue
     (fold addValidator
        [MinLengthValidator 10 None, RequiredValidator None, MinLengthValidator 10 None,
         MinLengthValidator 2 None, MinLengthValidator 4 (Some ''Too short'')]
        (setFieldName ''Password'' new_FieldOptions))
     (JString ''abc'') JNull (0 :: nat) =
   ([''Password must be at least 10 characters long'',
     ''Password must be at least 10 characters long'',
     ''Too short''],
    fold addValidator
        [MinLengthValidator 10 None, RequiredValidator None, MinLengthValidator 10 None,
         MinLengthValidator 2 None, MinLengthValidator 4 (Some ''Too short'')]
        (setFieldName ''Password'' new_FieldOptions),
    0)"
proof -
  let ?vs = "[MinLengthValidator 10 None, RequiredValidator None, MinLengthValidator 10 None,
         MinLengthValidator 2 None, MinLengthValidator 4 (Some ''Too short'')] :: nat BaseValidator list"
  let ?fo = "fold addValidator ?vs (setFieldName ''Password'' new_FieldOptions)"
  have vs: "validators ?fo = ?vs" and n: "fieldName ?fo = ''Password''"
    by (simp_all add: addValidator_def setFieldName_def new_FieldOptions_def)
  have sef: "\<forall>v \<in> set (validators ?fo). side_effect_free v"
    unfolding vs by (simp add: side_effect_free_RequiredValidator side_effect_free_MinLengthValidator)
  have "validateValue ?fo (JString ''abc'') JNull (0 :: nat) =
          (map (\<lambda>v. resolved_message v (fieldName ?fo) (JString ''abc'') 0)
             (filter (\<lambda>v. fails v (JString ''abc'') JNull 0) (validators ?fo)),
           ?fo, 0)"
    using validateValue_one_message_per_failure [of ?fo "JString ''abc''" JNull 0] sef by blast
  then show ?thesis
    unfolding vs n
    by (simp add: fails_def resolved_message_def MinLengthValidator_def RequiredValidator_def
        show_nat_10)
qed

subsection \<open>C2: an empty value skips the validators that do not validate empty values\<close>

text \<open>
  C2. For every validator V with \<^verbatim>\<open>validatesEmptyValue() == false\<close>, calling
  \<^verbatim>\<open>validateValue\<close> with an empty (falsy) value never invokes \<^verbatim>\<open>V.isValid\<close> and never
  contributes an error message from V. For V at any position of a chain, between the
  validators \<open>pre\<close> and \<open>post\<close>, answering false in the world the prefix leaves: the
  errors are those of the prefix followed by those of the rest, the rest starts in the
  world the \<^verbatim>\<open>validatesEmptyValue()\<close> call of V leaves, and nothing changes when
  \<open>isValid\<close>, \<open>hasCustomMessage\<close>, \<open>getCustomMessage\<close> and \<open>getMessage\<close> of V are
  replaced by any other functions: none of them is invoked.
\<close>

theorem empty_value_skips_validator:
  assumes "\<not> to_boolean value"
    and "validateValue (this\<lparr>validators := pre\<rparr>) value model w = (errors1, this1, w1)"
    and "validatesEmptyValue v w1 = (False, w2)"
    and "validateValue (this\<lparr>validators := post\<rparr>) value model w2 = (errors2, this2, w3)"
  shows "validateValue (this\<lparr>validators := pre @ v # post\<rparr>) value model w =
      (errors1 @ errors2, this\<lparr>validators := pre @ v # post\<rparr>, w3)
    \<and> (\<forall>f h c g.
        fst (validateValue
          (this\<lparr>validators :=
             pre @ v\<lparr>isValid := f, hasCustomMessage := h, getCustomMessage := c, getMessage := g\<rparr> # post\<rparr>)
          value model w) = errors1 @ errors2
      \<and> snd (snd (validateValue
          (this\<lparr>validators :=
             pre @ v\<lparr>isValid := f, hasCustomMessage := h, getCustomMessage := c, getMessage := g\<rparr> # post\<rparr>)
          value model w)) = w3)"
proof -
  have skip: "verdict u (fieldName this) value model w1 = (Skipped, w2)"
    if "validatesEmptyValue u w1 = (False, w2)" for u :: "'a BaseValidator"
    using assms(1) that by (rule verdict_skipped)
  have one: "validateValue (this\<lparr>validators := pre @ u # post\<rparr>) value model w =
      (errors1 @ errors2, this\<lparr>validators := pre @ u # post\<rparr>, w3)"
    if "validatesEmptyValue u w1 = (False, w2)" for u :: "'a BaseValidator"
    using validateValue_insert [OF assms(2) skip [OF that] assms(4)] by simp
  have same: "validatesEmptyValue
      (v\<lparr>isValid := f, hasCustomMessage := h, getCustomMessage := c, getMessage := g\<rparr>) w1 = (False, w2)"
    for f h c g
    using assms(3) by simp
  show ?thesis
    using one [OF assms(3)] one [OF same] by simp
qed

text \<open>
  With the empty string, the counting validator is never asked: the counter stays 0,
  and only the Required validator reports.
\<close>

theorem empty_value_skips_validator_witness:
  "\<not> to_boolean (JString [])
   \<and> validatesEmptyValue CountingValidator (0, 5) = (False, (0, 5))
   \<and> validateValue
        (new_FieldOptions\<lparr>validators := [MinLengthValidator 10 None, RequiredValidator None] @
           CountingValidator # [MinLengthValidator 2 (Some ''Too short'')]\<rparr>)
        (JString []) JNull (0, 5) =
      ([''Field is required''] @ [],
       new_FieldOptions\<lparr>validators := [MinLengthValidator 10 None, RequiredValidator None] @
           CountingValidator # [MinLengthValidator 2 (Some ''Too short'')]\<rparr>,
       (0, 5))"
proof -
  let ?fo = "new_FieldOptions :: (nat \<times> nat) FieldOptions"
  let ?pre = "[MinLengthValidator 10 None, RequiredValidator None] :: (nat \<times> nat) BaseValidator list"
  let ?post = "[MinLengthValidator 2 (Some ''Too short'')] :: (nat \<times> nat) BaseValidator list"
  have e: "\<not> to_boolean (JString [])" by simp
  have p: "validateValue (?fo\<lparr>validators := ?pre\<rparr>) (JString []) JNull (0, 5) =
      ([''Field is required''], ?fo\<lparr>validators := ?pre\<rparr>, (0, 5))"
    by (simp add: validateValue_verdicts verdict_def new_FieldOptions_def
        MinLengthValidator_def RequiredValidator_def)
  have c: "validatesEmptyValue CountingValidator (0, 5) = (False, (0, 5))"
    by (simp add: CountingValidator_def)
  have q: "validateValue (?fo\<lparr>validators := ?post\<rparr>) (JString []) JNull (0, 5) =
      ([], ?fo\<lparr>validators := ?post\<rparr>, (0, 5))"
    by (simp add: validateValue_verdicts verdict_def new_FieldOptions_def MinLengthValidator_def)
  from empty_value_skips_validator [OF e p c q] e c show ?thesis by blast
qed

subsection \<open>C3: a custom message takes precedence\<close>

text \<open>
  C3. For every failing validator that has a custom message (\<open>hasCustomMessage\<close> is
  true), \<^verbatim>\<open>validateValue\<close> emits exactly the string returned by \<^verbatim>\<open>getCustomMessage()\<close>,
  independent of the field's display name; only when \<open>hasCustomMessage\<close> is false is
  the default template \<^verbatim>\<open>getMessage(fieldName, value)\<close> rendered with the display name.
  For a validator \<open>v\<close> at any position of a chain that is evaluated and fails: the
  message at its place in the result, right after the errors of the prefix, is the
  custom message when there is one and the default template with the display name
  otherwise; with a custom message \<open>getMessage\<close> of \<open>v\<close> is not invoked (any other
  function in its place gives the same errors and world); and for a chain whose
  validators all have custom messages the result does not depend on the display name.
\<close>

theorem custom_message_precedence:
  assumes "validateValue (this\<lparr>validators := pre\<rparr>) value model w = (errors1, this1, w1)"
    and "validatesEmptyValue v w1 = (validatesEmpty, w2)"
    and "to_boolean value \<or> validatesEmpty"
    and "isValid v value model w2 = (False, w3)"
  shows "take (Suc (length errors1))
        (fst (validateValue (this\<lparr>validators := pre @ v # post\<rparr>) value model w)) =
      errors1 @ [if hasCustomMessage v w3 then fst (getCustomMessage v w3)
                 else fst (getMessage v (getFieldName this) value w3)]
    \<and> (hasCustomMessage v w3 \<longrightarrow>
        (\<forall>g. fst (validateValue (this\<lparr>validators := pre @ v\<lparr>getMessage := g\<rparr> # post\<rparr>) value model w) =
               fst (validateValue (this\<lparr>validators := pre @ v # post\<rparr>) value model w)
           \<and> snd (snd (validateValue (this\<lparr>validators := pre @ v\<lparr>getMessage := g\<rparr> # post\<rparr>) value model w)) =
               snd (snd (validateValue (this\<lparr>validators := pre @ v # post\<rparr>) value model w))))
    \<and> ((\<forall>u \<in> set (validators this). \<forall>w. hasCustomMessage u w) \<longrightarrow>
        fst (validateValue (setFieldName name this) value model w) =
          fst (validateValue this value model w)
        \<and> snd (snd (validateValue (setFieldName name this) value model w)) =
          snd (snd (validateValue this value model w)))"
proof -
  let ?m = "if hasCustomMessage v w3 then getCustomMessage v w3
            else getMessage v (fieldName this) value w3"
  have d: "verdict v (fieldName this) value model w1 = (Failed (fst ?m), snd ?m)"
    using verdict_failed [OF assms(2,3,4), of "fieldName this"] .
  obtain errors2 this2 w5 where post:
    "validateValue (this\<lparr>validators := post\<rparr>) value model (snd ?m) = (errors2, this2, w5)"
    by (cases "validateValue (this\<lparr>validators := post\<rparr>) value model (snd ?m)")
  have "validateValue (this\<lparr>validators := pre @ v # post\<rparr>) value model w =
      (errors1 @ reported (Failed (fst ?m)) @ errors2, this\<lparr>validators := pre @ v # post\<rparr>, w5)"
    using assms(1) d post by (rule validateValue_insert)
  then have 1: "take (Suc (length errors1))
        (fst (validateValue (this\<lparr>validators := pre @ v # post\<rparr>) value model w)) =
      errors1 @ [if hasCustomMessage v w3 then fst (getCustomMessage v w3)
                 else fst (getMessage v (getFieldName this) value w3)]"
    unfolding getFieldName_def by auto
  have w1: "snd (snd (validateValue (this\<lparr>validators := pre\<rparr>) value model w)) = w1"
    using assms(1) by simp
  have 2: "fst (validateValue (this\<lparr>validators := pre @ v\<lparr>getMessage := g\<rparr> # post\<rparr>) value model w) =
               fst (validateValue (this\<lparr>validators := pre @ v # post\<rparr>) value model w)
           \<and> snd (snd (validateValue (this\<lparr>validators := pre @ v\<lparr>getMessage := g\<rparr> # post\<rparr>) value model w)) =
               snd (snd (validateValue (this\<lparr>validators := pre @ v # post\<rparr>) value model w))"
    if has: "hasCustomMessage v w3" for g
  proof (rule validateValue_same_verdict)
    have "verdict (v\<lparr>getMessage := g\<rparr>) (fieldName this) value model w1 =
        verdict v (fieldName this) value model w1"
      using assms(2,3,4) has by (auto simp: verdict_def)
    then show "verdict (v\<lparr>getMessage := g\<rparr>) (fieldName this) value model
        (snd (snd (validateValue (this\<lparr>validators := pre\<rparr>) value model w))) =
      verdict v (fieldName this) value model
        (snd (snd (validateValue (this\<lparr>validators := pre\<rparr>) value model w)))"
      unfolding w1 .
  qed
  have 3: "fst (validateValue (setFieldName name this) value model w) =
          fst (validateValue this value model w)
        \<and> snd (snd (validateValue (setFieldName name this) value model w)) =
          snd (snd (validateValue this value model w))"
    if "\<forall>u \<in> set (validators this). \<forall>w. hasCustomMessage u w"
    using verdicts_custom_any_name [OF that, of name "value" model w "fieldName this"]
    by (simp add: validateValue_verdicts setFieldName_def)
  from 1 2 3 show ?thesis by blast
qed

text \<open>
  After the counting validator (default template, display name \<open>Password\<close>) a
  MinLength validator with a custom message fails: its message is the custom one.
\<close>

theorem custom_message_precedence_witness:
  "validateValue ((setFieldName ''Password'' new_FieldOptions)\<lparr>validators := [CountingValidator]\<rparr>)
      (JString ''abc'') JNull (0, 5) =
     ([''Password was checked''],
      (setFieldName ''Password'' new_FieldOptions)\<lparr>validators := [CountingValidator]\<rparr>, (1, 5))
   \<and> validatesEmptyValue (MinLengthValidator 10 (Some ''Too short'')) (1, 5) = (False, (1 :: nat, 5 :: nat))
   \<and> to_boolean (JString ''abc'')
   \<and> isValid (MinLengthValidator 10 (Some ''Too short'')) (JString ''abc'') JNull (1, 5) =
       (False, (1 :: nat, 5 :: nat))
   \<and> take 2 (fst (validateValue
        ((setFieldName ''Password'' new_FieldOptions)\<lparr>validators :=
           [CountingValidator] @ MinLengthValidator 10 (Some ''Too short'') # [RequiredValidator None]\<rparr>)
        (JString ''abc'') JNull (0, 5))) =
      [''Password was checked'', ''Too short'']"
proof -
  let ?fo = "setFieldName ''Password'' new_FieldOptions :: (nat \<times> nat) FieldOptions"
  let ?v = "MinLengthValidator 10 (Some ''Too short'') :: (nat \<times> nat) BaseValidator"
  have p: "validateValue (?fo\<lparr>validators := [CountingValidator]\<rparr>) (JString ''abc'') JNull (0, 5) =
     ([''Password was checked''], ?fo\<lparr>validators := [CountingValidator]\<rparr>, (1, 5))"
    by (simp add: validateValue_verdicts verdict_def new_FieldOptions_def setFieldName_def
        CountingValidator_def)
  have a: "validatesEmptyValue ?v (1, 5) = (False, (1, 5))"
    by (simp add: MinLengthValidator_def)
  have b: "to_boolean (JString ''abc'') \<or> False" by simp
  have c: "isValid ?v (JString ''abc'') JNull (1, 5) = (False, (1, 5))"
    by (simp add: MinLengthValidator_def)
  have h: "hasCustomMessage ?v (1, 5)" "fst (getCustomMessage ?v (1, 5)) = ''Too short''"
    by (simp_all add: MinLengthValidator_def)
  from custom_message_precedence [OF p a b c, of "[RequiredValidator None]", THEN conjunct1] h
  have "take 2 (fst (validateValue
        (?fo\<lparr>validators := [CountingValidator] @ ?v # [RequiredValidator None]\<rparr>)
        (JString ''abc'') JNull (0, 5))) = [''Password was checked'', ''Too short'']"
    by (simp add: numeral_2_eq_2)
  with p a b c show ?thesis by simp
qed

subsection \<open>C4: one manager per model type\<close>

text \<open>
  C4. \<^verbatim>\<open>ValidationManager.get(type)\<close> creates the manager on the first call for a type and
  returns that same singleton instance on every subsequent call for the same type, so
  every decorator applied to one class (each \<^verbatim>\<open>MinLength\<close> application, for one) appends
  into one shared registry. For a well-formed registry and the reference \<open>a\<close> that
  \<open>get\<close> returns for class \<open>c\<close>: a further \<open>get\<close> returns \<open>a\<close> and changes nothing; a
  type that had no manager gets a new, empty one, and a type that had one keeps it; no
  other type has \<open>a\<close>; and applying the decorator \<^verbatim>\<open>MinLength\<close> with a valid bound to \<open>c\<close>,
  before or after that \<open>get\<close>, changes the manager object at \<open>a\<close> and nothing else: the
  validator is appended to the chain of the property there, and \<open>get\<close> still returns
  \<open>a\<close> afterwards, in a registry that is again well-formed. A \<open>get\<close> for any type,
  creating or not, keeps the entry of \<open>c\<close>: the next \<open>get\<close> for \<open>c\<close> returns \<open>a\<close>, another
  type gets another reference, and the manager at \<open>a\<close> is untouched. So after every
  sequence of \<open>get\<close> calls and decorator applications, for any types, \<open>get\<close> for \<open>c\<close>
  returns \<open>a\<close> and changes nothing, and calls for other types leave the manager at \<open>a\<close>
  as it was.
\<close>

theorem get_returns_singleton:
  assumes "well_formed r" and "ValidationManager_get c r = (a, r1)"
  shows "ValidationManager_get c r1 = (a, r1)
    \<and> well_formed r1
    \<and> (instances r c = None \<longrightarrow> managers r1 a = Some new_ValidationManager)
    \<and> (\<forall>b. instances r c = Some b \<longrightarrow> a = b \<and> r1 = r)
    \<and> (\<forall>t. t \<noteq> c \<longrightarrow> instances r1 t \<noteq> Some a)
    \<and> (\<forall>minLength message property. is_positive_integer minLength \<longrightarrow>
         (\<exists>state state2 r2 options.
            managers r1 a = Some state
            \<and> state2 = ValidationManager_addValidator property
                   (MinLengthValidator (integer_value minLength) message) state
            \<and> r2 = r1\<lparr>managers := (managers r1)(a \<mapsto> state2)\<rparr>
            \<and> MinLength minLength message c property r = (Inr (), r2)
            \<and> MinLength minLength message c property r1 = (Inr (), r2)
            \<and> map_of (manager_fields state2) property = Some options
            \<and> validators options =
                (case map_of (manager_fields state) property of
                   None \<Rightarrow> [] | Some old \<Rightarrow> validators old) @
                [MinLengthValidator (integer_value minLength) message]
            \<and> ValidationManager_get c r2 = (a, r2)
            \<and> well_formed r2))
    \<and> (\<forall>t b r2. ValidationManager_get t r1 = (b, r2) \<longrightarrow>
         ValidationManager_get c r2 = (a, r2) \<and> (t \<noteq> c \<longrightarrow> b \<noteq> a)
         \<and> managers r2 a = managers r1 a)
    \<and> (\<forall>ops. ValidationManager_get c (fold register ops r1) = (a, fold register ops r1)
         \<and> well_formed (fold register ops r1))
    \<and> (\<forall>ops. (\<forall>op \<in> set ops. registration_class op \<noteq> c) \<longrightarrow>
         managers (fold register ops r1) a = managers r1 a)"
proof -
  have again: "ValidationManager_get c r1 = (a, r1)"
    using assms(2) by (rule ValidationManager_get_again)
  have wf1: "well_formed r1"
    using assms by (rule well_formed_get)
  have created: "instances r c = None \<longrightarrow> managers r1 a = Some new_ValidationManager"
    using assms(2) by (auto simp: ValidationManager_get_def Let_def)
  have kept: "\<forall>b. instances r c = Some b \<longrightarrow> a = b \<and> r1 = r"
    using assms(2) by (auto simp: ValidationManager_get_def)
  have inst: "instances r1 c = Some a"
    using assms(2) by (rule ValidationManager_get_instances)
  have own: "\<forall>t. t \<noteq> c \<longrightarrow> instances r1 t \<noteq> Some a"
    using wf1 inst by (auto simp: well_formed_def)
  obtain state where state: "managers r1 a = Some state"
    using get_allocated [OF assms] by blast
  have deco: "\<exists>state state2 r2 options.
            managers r1 a = Some state
            \<and> state2 = ValidationManager_addValidator property
                   (MinLengthValidator (integer_value minLength) message) state
            \<and> r2 = r1\<lparr>managers := (managers r1)(a \<mapsto> state2)\<rparr>
            \<and> MinLength minLength message c property r = (Inr (), r2)
            \<and> MinLength minLength message c property r1 = (Inr (), r2)
            \<and> map_of (manager_fields state2) property = Some options
            \<and> validators options =
                (case map_of (manager_fields state) property of
                   None \<Rightarrow> [] | Some old \<Rightarrow> validators old) @
                [MinLengthValidator (integer_value minLength) message]
            \<and> ValidationManager_get c r2 = (a, r2)
            \<and> well_formed r2"
    if pos: "is_positive_integer minLength" for minLength message property
  proof -
    let ?v = "MinLengthValidator (integer_value minLength) message :: 'a BaseValidator"
    let ?state2 = "ValidationManager_addValidator property ?v state"
    let ?r2 = "r1\<lparr>managers := (managers r1)(a \<mapsto> ?state2)\<rparr>"
    let ?options = "addValidator ?v
      (case map_of (manager_fields state) property of
         None \<Rightarrow> new_FieldOptions | Some old \<Rightarrow> old)"
    have 1: "MinLength minLength message c property r = (Inr (), ?r2)"
      using pos assms(2) state by (rule MinLength_valid)
    have 2: "MinLength minLength message c property r1 = (Inr (), ?r2)"
      using pos again state by (rule MinLength_valid)
    have 3: "ValidationManager_get c ?r2 = (a, ?r2)"
      using inst by (simp add: ValidationManager_get_def)
    have "?r2 = on_manager a (ValidationManager_addValidator property ?v) r1"
      using state by (simp add: on_manager_def)
    then have 4: "well_formed ?r2"
      using wf1 by (simp add: well_formed_on_manager)
    have 5: "map_of (manager_fields ?state2) property = Some ?options"
      by (simp add: manager_fields_addValidator)
    have 6: "validators ?options =
        (case map_of (manager_fields state) property of
           None \<Rightarrow> [] | Some old \<Rightarrow> validators old) @ [?v]"
      by (simp add: addValidator_def new_FieldOptions_def split: option.splits)
    from state 1 2 3 4 5 6 show ?thesis by blast
  qed
  have other: "ValidationManager_get c r2 = (a, r2) \<and> (t \<noteq> c \<longrightarrow> b \<noteq> a)
         \<and> managers r2 a = managers r1 a"
    if g: "ValidationManager_get t r1 = (b, r2)" for t b r2
  proof -
    from g have r2: "r2 = snd (ValidationManager_get t r1)" by simp
    have i2: "instances r2 c = Some a"
      unfolding r2 using inst by (rule instances_get_keeps)
    have wf2: "well_formed r2" using wf1 g by (rule well_formed_get)
    have ib: "instances r2 t = Some b" using g by (rule ValidationManager_get_instances)
    have "t \<noteq> c \<longrightarrow> b \<noteq> a"
      using wf2 i2 ib by (auto simp: well_formed_def)
    moreover have "managers r2 a = managers r1 a"
      unfolding r2 using wf1 inst by (rule managers_get_keeps)
    moreover have "ValidationManager_get c r2 = (a, r2)"
      using i2 by (rule ValidationManager_get_known)
    ultimately show ?thesis by blast
  qed
  have seq: "ValidationManager_get c (fold register ops r1) = (a, fold register ops r1)
         \<and> well_formed (fold register ops r1)" for ops
    using fold_register_keeps [OF wf1 inst, of ops]
    by (simp add: ValidationManager_get_known)
  have others: "managers (fold register ops r1) a = managers r1 a"
    if "\<forall>op \<in> set ops. registration_class op \<noteq> c" for ops
    using wf1 inst that by (rule fold_register_other)
  from again wf1 created kept own deco other seq others show ?thesis by blast
qed

text \<open>
  From the empty registry: the first \<open>get\<close> for class 7 creates manager 0, the second
  returns it, and two \<^verbatim>\<open>MinLength\<close> decorators on the property \<open>password\<close> of that class
  leave both validators, in application order, in the one manager. A \<open>get\<close> for class
  8 creates manager 1, and after it, a decorator on class 8 and a \<open>get\<close> for class 9,
  the \<open>get\<close> for class 7 still returns manager 0.
\<close>

theorem get_returns_singleton_witness:
  "well_formed (empty_Registry :: nat Registry)
   \<and> fst (ValidationManager_get 7 (empty_Registry :: nat Registry)) = 0
   \<and> ValidationManager_get 7 (snd (ValidationManager_get 7 (empty_Registry :: nat Registry))) =
       ValidationManager_get 7 (empty_Registry :: nat Registry)
   \<and> managers (snd (ValidationManager_get 7 (empty_Registry :: nat Registry))) 0 =
       Some new_ValidationManager
   \<and> fst (ValidationManager_get 8 (snd (ValidationManager_get 7 (empty_Registry :: nat Registry)))) = 1
   \<and> fst (ValidationManager_get 7
        (fold register
          [GetManager 8, ApplyMinLength (Finite False 3 1) None 8 ''name'', GetManager 9]
          (snd (ValidationManager_get 7 (empty_Registry :: nat Registry))))) = 0
   \<and> is_positive_integer (Finite False 10 0)
   \<and> is_positive_integer (Finite False 3 1)
   \<and> fst (MinLength (Finite False 10 0) None 7 ''password'' (empty_Registry :: nat Registry)) = Inr ()
   \<and> map_option (\<lambda>state. map (\<lambda>p. (fst p, validators (snd p))) (manager_fields state))
        (managers
          (snd (MinLength (Finite False 3 1) (Some ''Too short'') 7 ''password''
            (snd (MinLength (Finite False 10 0) None 7 ''password'' (empty_Registry :: nat Registry)))))
          0) =
       Some [(''password'', [MinLengthValidator 10 None, MinLengthValidator 6 (Some ''Too short'')])]"
proof -
  let ?r = "empty_Registry :: nat Registry"
  let ?r1 = "\<lparr>instances = [7 \<mapsto> 0], managers = [0 \<mapsto> new_ValidationManager],
      next_ref = Suc 0\<rparr> :: nat Registry"
  have wf: "well_formed ?r" by (rule well_formed_empty)
  have g: "ValidationManager_get 7 ?r = (0, ?r1)"
    by (simp add: ValidationManager_get_def empty_Registry_def Let_def)
  have p10: "is_positive_integer (Finite False 10 0)" and p6: "is_positive_integer (Finite False 3 1)"
    by (simp_all add: is_positive_integer_def)
  note t = get_returns_singleton [OF wf g]
  from t have again: "ValidationManager_get 7 ?r1 = (0, ?r1)" by blast
  from t p10 have first: "fst (MinLength (Finite False 10 0) None 7 ''password'' ?r) = Inr ()"
    by (metis fst_conv)
  have chain: "map_option (\<lambda>state. map (\<lambda>p. (fst p, validators (snd p))) (manager_fields state))
        (managers
          (snd (MinLength (Finite False 3 1) (Some ''Too short'') 7 ''password''
            (snd (MinLength (Finite False 10 0) None 7 ''password'' ?r))))
          0) =
       Some [(''password'', [MinLengthValidator 10 None, MinLengthValidator 6 (Some ''Too short'')])]"
    by (simp add: MinLength_def ValidationManager_get_def empty_Registry_def Let_def
        new_MinLengthValidator_def is_positive_integer_def integer_value_def on_manager_def
        ValidationManager_addValidator_def new_ValidationManager_def addValidator_def
        new_FieldOptions_def)
  from t have "ValidationManager_get 7
        (fold register
          [GetManager 8, ApplyMinLength (Finite False 3 1) None 8 ''name'', GetManager 9] ?r1) =
      (0, fold register
          [GetManager 8, ApplyMinLength (Finite False 3 1) None 8 ''name'', GetManager 9] ?r1)"
    by blast
  then have seq: "fst (ValidationManager_get 7
        (fold register
          [GetManager 8, ApplyMinLength (Finite False 3 1) None 8 ''name'', GetManager 9] ?r1)) = 0"
    by simp
  have eight: "fst (ValidationManager_get 8 ?r1) = 1"
    by (simp add: ValidationManager_get_def)
  from wf g again p10 p6 first chain seq eight show ?thesis
    by (simp add: new_ValidationManager_def)
qed

subsection \<open>C5: a field without validators is valid\<close>

text \<open>
  C5. For every field with no registered validators (a field name absent from the
  manager included), \<^verbatim>\<open>validateField\<close> and \<^verbatim>\<open>validateValue\<close> return an empty sequence
  rather than raising an error: an absent or rule-less field is vacuously valid.
  \<^verbatim>\<open>validateValue\<close> on an object without validators, a new one or one that only got a
  name, returns no errors and leaves object and world as they are; \<^verbatim>\<open>validateField\<close> does
  so for a field the manager does not know and for a known field whose chain is empty.
\<close>

theorem no_validators_no_errors:
  "(validators this = [] \<longrightarrow> validateValue this value model w = ([], this, w))
   \<and> validateValue new_FieldOptions value model w = ([], new_FieldOptions, w)
   \<and> validateValue (setFieldName name new_FieldOptions) value model w =
        ([], setFieldName name new_FieldOptions, w)
   \<and> (map_of (manager_fields manager) field = None \<longrightarrow>
        validateField member manager model field w = ([], w))
   \<and> (\<forall>options. map_of (manager_fields manager) field = Some options \<and> validators options = [] \<longrightarrow>
        validateField member manager model field w = ([], w))"
  by (simp add: validateValue_verdicts validateField_def new_FieldOptions_def setFieldName_def)

theorem no_validators_no_errors_witness:
  "validators (setFieldName ''Email address'' new_FieldOptions :: nat FieldOptions) = []
   \<and> validateValue (setFieldName ''Email address'' new_FieldOptions) (JString []) JNull (0 :: nat) =
       ([], setFieldName ''Email address'' new_FieldOptions, 0)
   \<and> map_of (manager_fields
        (ValidationManager_setFieldName ''email'' ''Email address'' new_ValidationManager
           :: nat ValidationManager)) ''missing'' = None
   \<and> validateField (\<lambda>model name w. JString ''abc'')
        (ValidationManager_setFieldName ''email'' ''Email address'' new_ValidationManager)
        (JObject 7) ''missing'' (0 :: nat) = ([], 0)
   \<and> validateField (\<lambda>model name w. JString ''abc'')
        (ValidationManager_setFieldName ''email'' ''Email address'' new_ValidationManager)
        (JObject 7) ''email'' (0 :: nat) = ([], 0)"
proof -
  let ?fo = "setFieldName ''Email address'' new_FieldOptions :: nat FieldOptions"
  let ?m = "ValidationManager_setFieldName ''email'' ''Email address'' new_ValidationManager
      :: nat ValidationManager"
  let ?member = "\<lambda>(model :: js_value) (name :: string) (w :: nat). JString ''abc''"
  have v: "validators ?fo = []"
    by (simp add: setFieldName_def new_FieldOptions_def)
  have absent: "map_of (manager_fields ?m) ''missing'' = None"
    by (simp add: ValidationManager_setFieldName_def new_ValidationManager_def)
  have present: "map_of (manager_fields ?m) ''email'' = Some ?fo \<and> validators ?fo = []"
    by (simp add: ValidationManager_setFieldName_def new_ValidationManager_def
        setFieldName_def new_FieldOptions_def)
  have 1: "validateValue ?fo (JString []) JNull (0 :: nat) = ([], ?fo, 0)"
    using no_validators_no_errors [of ?fo "JString []" JNull 0] v by blast
  have 2: "validateField ?member ?m (JObject 7) ''missing'' 0 = ([], 0)"
    using no_validators_no_errors [of _ _ "JObject 7" 0 _ ?m "''missing''" ?member] absent
    by blast
  have 3: "validateField ?member ?m (JObject 7) ''email'' 0 = ([], 0)"
    using no_validators_no_errors [of _ _ "JObject 7" 0 _ ?m "''email''" ?member] present
    by blast
  from v absent 1 2 3 show ?thesis by blast
qed

subsection \<open>C6: MinLength rejects a bound that is not positive\<close>

text \<open>
  C6. \<^verbatim>\<open>MinLength(n)\<close> with a non-positive bound \<open>n\<close> (zero or negative) fails at
  registration time with a configuration error; it is never silently accepted. The
  constructor of the validator fails, so applying the decorator fails with that error,
  and no validator is registered: the registry is the one the \<open>get\<close> for the class
  leaves, in which every manager is as before or is a new, empty one.
\<close>

theorem MinLength_rejects_non_positive:
  assumes "non_positive minLength"
  shows "new_MinLengthValidator minLength message = (Inl ConfigurationError :: error + 'w BaseValidator)
    \<and> MinLength minLength message targetClass property (r :: 'w Registry) =
        (Inl ConfigurationError, snd (ValidationManager_get targetClass r))
    \<and> (\<forall>a. managers (snd (MinLength minLength message targetClass property r)) a = managers r a
           \<or> managers (snd (MinLength minLength message targetClass property r)) a =
               Some new_ValidationManager)"
proof -
  have n: "\<not> is_positive_integer minLength"
    using assms by (rule non_positive_not_positive_integer)
  have 1: "new_MinLengthValidator minLength message = (Inl ConfigurationError :: error + 'w BaseValidator)"
    using n by (simp add: new_MinLengthValidator_def)
  have 2: "MinLength minLength message targetClass property r =
        (Inl ConfigurationError, snd (ValidationManager_get targetClass r))"
    using n by (simp add: MinLength_def new_MinLengthValidator_def case_prod_beta)
  have 3: "managers (snd (ValidationManager_get targetClass r)) a = managers r a
           \<or> managers (snd (ValidationManager_get targetClass r)) a = Some new_ValidationManager" for a
    by (auto simp: ValidationManager_get_def Let_def split: option.splits)
  from 1 2 3 show ?thesis by simp
qed

text \<open>Zero and minus five, on the empty registry.\<close>

theorem MinLength_rejects_non_positive_witness:
  "non_positive (Finite False 0 0)
   \<and> non_positive (Finite True 5 0)
   \<and> MinLength (Finite False 0 0) None 7 ''password'' (empty_Registry :: nat Registry) =
       (Inl ConfigurationError, snd (ValidationManager_get 7 empty_Registry))
   \<and> MinLength (Finite True 5 0) (Some ''Too short'') 7 ''password'' (empty_Registry :: nat Registry) =
       (Inl ConfigurationError, snd (ValidationManager_get 7 empty_Registry))
   \<and> managers (snd (MinLength (Finite False 0 0) None 7 ''password'' (empty_Registry :: nat Registry))) 0 =
       Some new_ValidationManager"
proof -
  have z: "non_positive (Finite False 0 0)" and n: "non_positive (Finite True 5 0)"
    by (simp_all add: non_positive_def)
  have m: "managers (snd (ValidationManager_get 7 (empty_Registry :: nat Registry))) 0 =
      Some new_ValidationManager"
    by (simp add: ValidationManager_get_def empty_Registry_def Let_def)
  from MinLength_rejects_non_positive [OF z, of None 7 "''password''" "empty_Registry :: nat Registry"]
    MinLength_rejects_non_positive [OF n, of "Some ''Too short''" 7 "''password''"
      "empty_Registry :: nat Registry"] z n m
  show ?thesis by simp
qed

subsection \<open>C7: the display name is the last one set, or the placeholder\<close>

text \<open>
  C7. For every FieldOptions, the display name used in rendered messages is the argument
  of the most recent \<^verbatim>\<open>setFieldName\<close> call (last write wins), and if \<^verbatim>\<open>setFieldName\<close> was
  never called, the default placeholder name is used. After any calls, a
  \<^verbatim>\<open>setFieldName(name)\<close> and then only \<^verbatim>\<open>addValidator\<close> calls, the name is \<open>name\<close>; after
  \<^verbatim>\<open>addValidator\<close> calls only, on a new object, it is \<open>''Field''\<close>; and that name is the
  one \<^verbatim>\<open>validateValue\<close> hands to \<^verbatim>\<open>getMessage\<close>: the errors are those of the verdicts for
  that name, and for validators without side effects they are the custom messages and
  the default templates rendered with that name.
\<close>

theorem display_name_last_write_wins:
  "getFieldName (setFieldName name2 (setFieldName name1 this)) = name2
   \<and> getFieldName (fold perform (calls @ SetFieldName name # map AddValidator vs) this) = name
   \<and> getFieldName (fold perform (map AddValidator vs) new_FieldOptions) = ''Field''
   \<and> fst (validateValue (setFieldName name this) value model w) =
        concat (map reported (fst (verdicts (validators this) name value model w)))
   \<and> fst (validateValue (fold perform (map AddValidator vs) new_FieldOptions) value model w) =
        concat (map reported (fst (verdicts vs ''Field'' value model w)))
   \<and> ((\<forall>v \<in> set (validators this). side_effect_free v) \<longrightarrow>
        fst (validateValue (setFieldName name this) value model w) =
          map (\<lambda>v. if hasCustomMessage v w then fst (getCustomMessage v w)
                    else fst (getMessage v name value w))
            (filter (\<lambda>v. fails v value model w) (validators this)))"
proof -
  have a: "getFieldName (setFieldName name2 (setFieldName name1 this)) = name2"
    by (simp add: getFieldName_def setFieldName_def)
  have b: "getFieldName (fold perform (calls @ SetFieldName name # map AddValidator vs) this) = name"
    by (simp add: getFieldName_def fieldName_fold_perform_AddValidator setFieldName_def)
  have c: "getFieldName (fold perform (map AddValidator vs) (new_FieldOptions :: 'a FieldOptions)) = ''Field''"
    by (simp add: getFieldName_def fieldName_fold_perform_AddValidator new_FieldOptions_def)
  have d: "fst (validateValue (setFieldName name this) value model w) =
        concat (map reported (fst (verdicts (validators this) name value model w)))"
    by (simp add: validateValue_verdicts setFieldName_def)
  have e: "fst (validateValue (fold perform (map AddValidator vs) new_FieldOptions) value model w) =
        concat (map reported (fst (verdicts vs ''Field'' value model w)))"
    by (simp add: validateValue_verdicts fieldName_fold_perform_AddValidator
        validators_fold_perform_AddValidator new_FieldOptions_def)
  have f: "fst (validateValue (setFieldName name this) value model w) =
          map (\<lambda>v. if hasCustomMessage v w then fst (getCustomMessage v w)
                    else fst (getMessage v name value w))
            (filter (\<lambda>v. fails v value model w) (validators this))"
    if "\<forall>v \<in> set (validators this). side_effect_free v"
    using verdicts_side_effect_free(2) [OF that, of name "value" model w]
    by (simp add: d resolved_message_def)
  from a b c d e f show ?thesis by blast
qed

text \<open>
  The messages of the integration test: \<open>Password must be at least 10 characters long\<close>
  after \<^verbatim>\<open>setFieldName('Password')\<close>, and \<open>Field is required\<close> without a name.
\<close>

theorem display_name_last_write_wins_witness:
  "getFieldName (fold perform
      [SetFieldName ''Secret'', AddValidator (RequiredValidator None), SetFieldName ''Password'',
       AddValidator (MinLengthValidator 10 None)] (new_FieldOptions :: nat FieldOptions)) = ''Password''
   \<and> side_effect_free (MinLengthValidator 10 None :: nat BaseValidator)
   \<and> fst (validateValue
        (setFieldName ''Password'' (addValidator (MinLengthValidator 10 None) new_FieldOptions))
        (JString ''a'') JNull (0 :: nat)) = [''Password must be at least 10 characters long'']
   \<and> fst (validateValue
        (fold perform (map AddValidator [RequiredValidator None]) new_FieldOptions)
        (JString []) JNull (0 :: nat)) = [''Field is required'']"
proof -
  let ?min = "MinLengthValidator 10 None :: nat BaseValidator"
  let ?fo = "addValidator ?min new_FieldOptions"
  have vs: "validators ?fo = [?min]"
    by (simp add: addValidator_def new_FieldOptions_def)
  have sef: "\<forall>v \<in> set (validators ?fo). side_effect_free v"
    unfolding vs by (simp add: side_effect_free_MinLengthValidator)
  note t1 = display_name_last_write_wins [of "[]" "[]" "new_FieldOptions :: nat FieldOptions"
      "[SetFieldName ''Secret'', AddValidator (RequiredValidator None)]" "''Password''" "[?min]"
      JNull JNull 0]
  from t1 have a: "getFieldName (fold perform
      ([SetFieldName ''Secret'', AddValidator (RequiredValidator None)] @
        SetFieldName ''Password'' # map AddValidator [?min]) (new_FieldOptions :: nat FieldOptions))
      = ''Password''"
    by blast
  note t2 = display_name_last_write_wins [of "[]" "[]" ?fo "[]" "''Password''" "[]" "JString ''a''" JNull 0]
  from t2 sef have "fst (validateValue (setFieldName ''Password'' ?fo) (JString ''a'') JNull 0) =
      map (\<lambda>v. if hasCustomMessage v 0 then fst (getCustomMessage v 0)
                else fst (getMessage v ''Password'' (JString ''a'') 0))
        (filter (\<lambda>v. fails v (JString ''a'') JNull 0) (validators ?fo))"
    by blast
  then have b: "fst (validateValue (setFieldName ''Password'' ?fo) (JString ''a'') JNull 0) =
      [''Password must be at least 10 characters long'']"
    unfolding vs by (simp add: fails_def MinLengthValidator_def show_nat_10)
  note t3 = display_name_last_write_wins [of "[]" "[]" "new_FieldOptions :: nat FieldOptions" "[]" "[]"
      "[RequiredValidator None]" "JString []" JNull "0 :: nat"]
  from t3 have "fst (validateValue
        (fold perform (map AddValidator [RequiredValidator None]) new_FieldOptions)
        (JString []) JNull (0 :: nat)) =
      concat (map reported
        (fst (verdicts [RequiredValidator None] ''Field'' (JString []) JNull (0 :: nat))))"
    by blast
  then have c: "fst (validateValue
        (fold perform (map AddValidator [RequiredValidator None]) new_FieldOptions)
        (JString []) JNull (0 :: nat)) = [''Field is required'']"
    by (simp add: verdict_def RequiredValidator_def)
  from a b c show ?thesis
    by (simp add: side_effect_free_MinLengthValidator)
qed

subsection \<open>C8: validating twice gives equal results\<close>

text \<open>
  C8. Validation is deterministic and idempotent: given validators that are stateless,
  calling \<^verbatim>\<open>validate()\<close>, and \<^verbatim>\<open>validateValue\<close> in particular, twice on an unchanged model
  instance yields structurally equal results. With validators none of whose methods
  changes the world, a second \<^verbatim>\<open>validateValue\<close> on the object and world the first one
  left returns the same errors, object and world, and a second \<^verbatim>\<open>validate()\<close> returns the
  same result.
\<close>

theorem validation_idempotent:
  "((\<forall>v \<in> set (validators this). side_effect_free v)
      \<and> validateValue this value model w = (errors1, this1, w1)
      \<and> validateValue this1 value model w1 = (errors2, this2, w2)
      \<longrightarrow> errors2 = errors1 \<and> this2 = this1 \<and> w2 = w1)
   \<and> ((\<forall>p \<in> set (manager_fields manager). \<forall>v \<in> set (validators (snd p)). side_effect_free v)
      \<and> validate member manager model w = (result1, w1')
      \<and> validate member manager model w1' = (result2, w2')
      \<longrightarrow> result2 = result1 \<and> w2' = w1')"
proof -
  have a: "errors2 = errors1 \<and> this2 = this1 \<and> w2 = w1"
    if sef: "\<forall>v \<in> set (validators this). side_effect_free v"
      and 1: "validateValue this value model w = (errors1, this1, w1)"
      and 2: "validateValue this1 value model w1 = (errors2, this2, w2)"
  proof -
    from 1 have "this1 = this" and "w1 = w"
      by (simp_all add: validateValue_verdicts verdicts_side_effect_free(1) [OF sef])
    with 1 2 show ?thesis by simp
  qed
  have b: "result2 = result1 \<and> w2' = w1'"
    if sef: "\<forall>p \<in> set (manager_fields manager). \<forall>v \<in> set (validators (snd p)). side_effect_free v"
      and 1: "validate member manager model w = (result1, w1')"
      and 2: "validate member manager model w1' = (result2, w2')"
  proof -
    from 1 validate_side_effect_free [OF sef, of member model w] have "w1' = w" by simp
    with 1 2 show ?thesis by simp
  qed
  from a b show ?thesis by blast
qed

theorem validation_idempotent_witness:
  "validateValue (addValidator (RequiredValidator None) new_FieldOptions) (JString []) (JObject 7) (0 :: nat) =
     ([''Field is required''], addValidator (RequiredValidator None) new_FieldOptions, 0)
   \<and> fst (validateValue
        (fst (snd (validateValue (addValidator (RequiredValidator None) new_FieldOptions)
           (JString []) (JObject 7) (0 :: nat))))
        (JString []) (JObject 7)
        (snd (snd (validateValue (addValidator (RequiredValidator None) new_FieldOptions)
           (JString []) (JObject 7) (0 :: nat))))) = [''Field is required'']
   \<and> result_errors (fst (validate (\<lambda>model name w. JString [])
        (ValidationManager_addValidator ''username'' (RequiredValidator None) new_ValidationManager)
        (JObject 7) (0 :: nat))) = [(''username'', [''Field is required''])]
   \<and> fst (validate (\<lambda>model name w. JString [])
        (ValidationManager_addValidator ''username'' (RequiredValidator None) new_ValidationManager)
        (JObject 7)
        (snd (validate (\<lambda>model name w. JString [])
          (ValidationManager_addValidator ''username'' (RequiredValidator None) new_ValidationManager)
          (JObject 7) (0 :: nat)))) =
      fst (validate (\<lambda>model name w. JString [])
        (ValidationManager_addValidator ''username'' (RequiredValidator None) new_ValidationManager)
        (JObject 7) (0 :: nat))"
proof -
  let ?fo = "addValidator (RequiredValidator None) new_FieldOptions :: nat FieldOptions"
  let ?m = "ValidationManager_addValidator ''username'' (RequiredValidator None) new_ValidationManager
      :: nat ValidationManager"
  let ?member = "\<lambda>(model :: js_value) (name :: string) (w :: nat). JString []"
  have vs: "validators ?fo = [RequiredValidator None]"
    by (simp add: addValidator_def new_FieldOptions_def)
  have fs: "manager_fields ?m = [(''username'', ?fo)]"
    by (simp add: ValidationManager_addValidator_def new_ValidationManager_def)
  have sef: "\<forall>v \<in> set (validators ?fo). side_effect_free v"
    unfolding vs by (simp add: side_effect_free_RequiredValidator)
  have sefm: "\<forall>p \<in> set (manager_fields ?m). \<forall>v \<in> set (validators (snd p)). side_effect_free v"
    unfolding fs using sef by simp
  have 1: "validateValue ?fo (JString []) (JObject 7) (0 :: nat) = ([''Field is required''], ?fo, 0)"
    by (simp add: validateValue_verdicts vs verdict_def RequiredValidator_def
        addValidator_def new_FieldOptions_def)
  obtain errors2 this2 w2 where 2: "validateValue ?fo (JString []) (JObject 7) (0 :: nat) = (errors2, this2, w2)"
    by (cases "validateValue ?fo (JString []) (JObject 7) (0 :: nat)")
  obtain result1 w1 where 3: "validate ?member ?m (JObject 7) 0 = (result1, w1)"
    by (cases "validate ?member ?m (JObject 7) 0")
  obtain result2 w2' where 4: "validate ?member ?m (JObject 7) w1 = (result2, w2')"
    by (cases "validate ?member ?m (JObject 7) w1")
  note t = validation_idempotent [of ?fo "JString []" "JObject 7" 0 "[''Field is required'']" ?fo 0
      errors2 this2 w2 ?m ?member result1 w1 result2 w2']
  from t sef 1 2 have a: "errors2 = [''Field is required'']" by blast
  from t sefm 3 4 have b: "result2 = result1" by blast
  have c: "result_errors (fst (validate ?member ?m (JObject 7) 0)) =
      [(''username'', [''Field is required''])]"
    by (simp add: validate_def fs validateField_def 1)
  from 1 2 a 3 4 b c show ?thesis by simp
qed

subsection \<open>C9: evaluation writes through the validators only\<close>

text \<open>
  C9 says that evaluation never mutates the data it inspects: for every call,
  \<^verbatim>\<open>validateValue\<close> leaves the field value, the model, the field name and the registered
  validator chain unchanged. As stated, for every call, this fails: \<^verbatim>\<open>validateValue\<close> calls
  the methods of the validators, which are arbitrary code. With the meddling validator
  in the chain the call returns two errors and leaves another name, a chain of two
  validators and another model.
\<close>

theorem validateValue_mutation_counterexample:
  "validateValue_store meddling_objects (JString ''abc'') (JObject 7)
      \<lparr>this_fieldName = ''Field'', this_validators = [0], rest = 5\<rparr> =
     Some ([''Field was checked'', ''Field must be at least 10 characters long''],
           \<lparr>this_fieldName = ''Changed'', this_validators = [0, 1], rest = 6\<rparr>)
   \<and> this_fieldName \<lparr>this_fieldName = ''Changed'', this_validators = [0, 1], rest = 6 :: nat\<rparr> \<noteq>
       this_fieldName \<lparr>this_fieldName = ''Field'', this_validators = [0], rest = 5 :: nat\<rparr>
   \<and> this_validators \<lparr>this_fieldName = ''Changed'', this_validators = [0, 1], rest = 6 :: nat\<rparr> \<noteq>
       this_validators \<lparr>this_fieldName = ''Field'', this_validators = [0], rest = 5 :: nat\<rparr>
   \<and> rest \<lparr>this_fieldName = ''Changed'', this_validators = [0, 1], rest = 6 :: nat\<rparr> \<noteq>
       rest \<lparr>this_fieldName = ''Field'', this_validators = [0], rest = 5 :: nat\<rparr>"
  by (simp add: validateValue_store_def Let_def
      validateValue_loop_store.simps [of _ _ _ _ _ 0]
      validateValue_loop_store.simps [of _ _ _ _ _ "Suc 0"]
      validateValue_loop_store.simps [of _ _ _ _ _ "Suc (Suc 0)"]
      validateValue_body_def meddling_objects_def MeddlingValidator_def MinLengthValidator_def
      show_nat_10)

text \<open>
  C9, amended. \<^verbatim>\<open>validateValue\<close> itself writes to nothing it inspects: it changes the field
  name, the validator chain, the value and the model through the methods of the
  validators only. When no method of the validators in the chain has a side effect (the
  invariant the specification puts on validators), the call returns and leaves the
  whole store as it was: field name, chain, value and model. When the validators in
  the chain leave the FieldOptions object alone, the call returns, name and chain are
  unchanged, and errors and world are those of \<open>validateValue\<close> on the FieldOptions
  value. And whatever every validator method preserves is preserved by every call that
  returns.
\<close>

theorem validateValue_store_only_reads:
  "((\<forall>a \<in> set (this_validators s). side_effect_free (object a)) \<longrightarrow>
      validateValue_store object value model s =
        Some (fst (validateValue (this_of object s) value model s), s))
   \<and> ((\<forall>a \<in> set (this_validators s).
          preserves (\<lambda>s. (this_fieldName s, this_validators s)) (object a)) \<longrightarrow>
      validateValue_store object value model s =
        Some (fst (validateValue (this_of object s) value model s),
              snd (snd (validateValue (this_of object s) value model s)))
      \<and> this_fieldName (snd (snd (validateValue (this_of object s) value model s))) =
          this_fieldName s
      \<and> this_validators (snd (snd (validateValue (this_of object s) value model s))) =
          this_validators s)
   \<and> ((\<forall>a. preserves observe (object a))
        \<and> validateValue_store object value model s = Some (errors, s') \<longrightarrow>
      observe s' = observe s)"
proof -
  have name: "fieldName (this_of object s) = this_fieldName s"
    by (simp add: this_of_def)
  have b: "validateValue_store object value model s =
        Some (fst (validateValue (this_of object s) value model s),
              snd (snd (validateValue (this_of object s) value model s)))
      \<and> this_fieldName (snd (snd (validateValue (this_of object s) value model s))) =
          this_fieldName s
      \<and> this_validators (snd (snd (validateValue (this_of object s) value model s))) =
          this_validators s"
    if "\<forall>a \<in> set (this_validators s).
          preserves (\<lambda>s. (this_fieldName s, this_validators s)) (object a)"
    using validateValue_loop_store_refines [OF that, of "value" model "this_fieldName s"
        "\<not> to_boolean value" 0 "[]"]
    by (simp add: validateValue_store_def validateValue_def Let_def name)
  have a: "validateValue_store object value model s =
        Some (fst (validateValue (this_of object s) value model s), s)"
    if sef: "\<forall>a \<in> set (this_validators s). side_effect_free (object a)"
  proof -
    from sef have "\<forall>a \<in> set (this_validators s).
          preserves (\<lambda>s. (this_fieldName s, this_validators s)) (object a)"
      by (simp add: side_effect_free_preserves)
    moreover from sef have "\<forall>v \<in> set (validators (this_of object s)). side_effect_free v"
      by (simp add: validators_this_of)
    then have "snd (snd (validateValue (this_of object s) value model s)) = s"
      by (simp add: validateValue_verdicts verdicts_side_effect_free(1))
    ultimately show ?thesis using b by simp
  qed
  have c: "observe s' = observe s"
    if "\<forall>a. preserves observe (object a)"
      and "validateValue_store object value model s = Some (errors, s')"
    using validateValue_loop_store_preserves [of object "value" model "this_fieldName s"
        "\<not> to_boolean value" 0 "[]" s "(errors, s')" observe] that
    by (simp add: validateValue_store_def Let_def)
  from a b c show ?thesis by blast
qed

text \<open>
  A Required validator leaves the store as it was; the counting validator, asked twice,
  changes the model and leaves name and chain.
\<close>

theorem validateValue_store_only_reads_witness:
  "side_effect_free (RequiredValidator None :: nat store BaseValidator)
   \<and> validateValue_store (\<lambda>a. RequiredValidator None) (JString []) (JObject 7)
        \<lparr>this_fieldName = ''Email address'', this_validators = [0], rest = 5 :: nat\<rparr> =
      Some ([''Email address is required''],
            \<lparr>this_fieldName = ''Email address'', this_validators = [0], rest = 5\<rparr>)
   \<and> preserves (\<lambda>s. (this_fieldName s, this_validators s)) CountingStoreValidator
   \<and> validateValue_store (\<lambda>a. CountingStoreValidator) (JString ''abc'') (JObject 7)
        \<lparr>this_fieldName = ''Field'', this_validators = [0, 0], rest = 5\<rparr> =
      Some ([''Field was checked'', ''Field was checked''],
            \<lparr>this_fieldName = ''Field'', this_validators = [0, 0], rest = 7\<rparr>)"
proof -
  let ?req = "\<lambda>a :: nat. RequiredValidator None :: nat store BaseValidator"
  let ?s = "\<lparr>this_fieldName = ''Email address'', this_validators = [0], rest = 5 :: nat\<rparr>"
  let ?cnt = "\<lambda>a :: nat. CountingStoreValidator"
  let ?t = "\<lparr>this_fieldName = ''Field'', this_validators = [0, 0], rest = 5 :: nat\<rparr>"
  let ?frame = "\<lambda>s :: nat store. (this_fieldName s, this_validators s)"
  have sef: "side_effect_free (RequiredValidator None :: nat store BaseValidator)"
    by (rule side_effect_free_RequiredValidator)
  then have sefs: "\<forall>a \<in> set (this_validators ?s). side_effect_free (?req a)" by simp
  have p: "preserves ?frame CountingStoreValidator"
    by (simp add: preserves_def CountingStoreValidator_def)
  then have ps: "\<forall>a \<in> set (this_validators ?t). preserves ?frame (?cnt a)" by simp
  from validateValue_store_only_reads [of ?s ?req "JString []" "JObject 7"] sefs
  have "validateValue_store ?req (JString []) (JObject 7) ?s =
      Some (fst (validateValue (this_of ?req ?s) (JString []) (JObject 7) ?s), ?s)"
    by blast
  then have 1: "validateValue_store ?req (JString []) (JObject 7) ?s =
      Some ([''Email address is required''], ?s)"
    by (simp add: validateValue_verdicts this_of_def verdict_def RequiredValidator_def)
  from validateValue_store_only_reads [of ?t ?cnt "JString ''abc''" "JObject 7"] ps
  have "validateValue_store ?cnt (JString ''abc'') (JObject 7) ?t =
      Some (fst (validateValue (this_of ?cnt ?t) (JString ''abc'') (JObject 7) ?t),
            snd (snd (validateValue (this_of ?cnt ?t) (JString ''abc'') (JObject 7) ?t)))"
    by blast
  then have 2: "validateValue_store ?cnt (JString ''abc'') (JObject 7) ?t =
      Some ([''Field was checked'', ''Field was checked''],
            \<lparr>this_fieldName = ''Field'', this_validators = [0, 0], rest = 7\<rparr>)"
    by (simp add: validateValue_verdicts this_of_def verdict_def CountingStoreValidator_def)
  from sef 1 p 2 show ?thesis by blast
qed

subsection \<open>C10: a new FieldOptions, and the order of addValidator\<close>

text \<open>
  C10. A freshly constructed FieldOptions has an empty validator list and
  \<^verbatim>\<open>getFieldName()\<close> returns exactly the string \<open>''Field''\<close>; after any sequence of
  \<^verbatim>\<open>addValidator\<close> calls, \<^verbatim>\<open>getValidators()\<close> returns exactly the validators passed, in call
  order: each \<^verbatim>\<open>addValidator(v)\<close> appends \<open>v\<close> at the end of the list and leaves the name
  alone.
\<close>

theorem fresh_and_addValidator_order:
  fixes this :: "'w FieldOptions" and vs :: "'w BaseValidator list"
  shows "getValidators (new_FieldOptions :: 'w FieldOptions) = []
   \<and> getFieldName (new_FieldOptions :: 'w FieldOptions) = ''Field''
   \<and> getValidators (addValidator v this) = getValidators this @ [v]
   \<and> getValidators (fold addValidator vs this) = getValidators this @ vs
   \<and> getValidators (fold addValidator vs new_FieldOptions) = vs
   \<and> getFieldName (fold addValidator vs this) = getFieldName this"
proof -
  have one: "validators (addValidator v this) = validators this @ [v]"
    by (simp add: addValidator_def)
  have fresh: "validators (new_FieldOptions :: 'w FieldOptions) = []"
    "fieldName (new_FieldOptions :: 'w FieldOptions) = ''Field''"
    by (simp_all add: new_FieldOptions_def)
  show ?thesis
    by (simp add: getValidators_def getFieldName_def one fresh
        validators_fold_addValidator fieldName_fold_addValidator)
qed

end
